theory Spec2Isabelle
  imports Main "HOL-Library.Sublist"
begin

section \<open>Values exchanged with the collaborators\<close>

text \<open>
  The embedded program is the action of the \<^verbatim>\<open>changefile\<close> command
  (\<^verbatim>\<open>tools/monorepo-utils/src/changefile/index.ts\<close>, lines 43--205). It is one
  asynchronous function whose calls are awaited one after the other, so it is modelled
  as a sequential program that talks to its collaborators (the hosting API, git, the
  file system, child processes, the logger) and records every such call, with the
  answer it got, in a trace.
\<close>

text \<open>A value thrown by a call (a JavaScript exception or a rejected promise).\<close>

datatype error = Error string

text \<open>
  A call either returns a value, throws, or ends the process with an exit code
  (\<^verbatim>\<open>process.exit\<close>, which does not return and is not caught by
  \<^verbatim>\<open>try/catch\<close>).
\<close>

datatype 'a result = Ok 'a | Throw error | Exit nat

text \<open>The options object of the command (lines 46--50).\<close>

record options =
  owner :: string
  name :: string
  devRepoPath :: "string option"

text \<open>The fields the action reads from \<^verbatim>\<open>getPullRequestData\<close> (line 56).\<close>

record pull_request_data =
  prBody :: string
  headOwner :: string
  branch :: string
  fileName :: string
  head :: string
  base :: string

text \<open>The fields the action reads from \<^verbatim>\<open>getChangelogDetails\<close> (line 69).\<close>

record changelog_details =
  significance :: string
  type :: string
  message :: "string option"
  comment :: "string option"

text \<open>The argument of \<^verbatim>\<open>simpleGit\<close> (lines 170--173).\<close>

record git =
  baseDir :: string
  config :: "string list"

section \<open>Events\<close>

text \<open>
  One constructor per collaborator call of the action, carrying the arguments of the
  call and, where the call has one, its answer.
\<close>

datatype event =
    StartTask string
  | EndTask
  | Notice string
  | LoggerError error "unit result"
  | GetPullRequestData string string string "pull_request_data result"
  | CloneAuthenticatedRepo string string bool "string result"
  | CheckoutRemoteBranch string string "unit result"
  | GetTouchedProjectsRequiringChangelog string string string string string string
      "string list result"
  | GetAllProjectPaths string "string list result"
  | ExistsSync string bool
  | ExecSync string string "unit result"
  | GitRaw git "string list" "string result"
  | GitAdd git string "unit result"
  | GitCommit git string "unit result"
  | GitPush git string string "unit result"

type_synonym trace = "event list"

section \<open>The collaborators\<close>

text \<open>
  The modules \<^verbatim>\<open>../core/logger\<close>, \<^verbatim>\<open>../core/environment\<close>,
  \<^verbatim>\<open>../core/git\<close>, \<^verbatim>\<open>./lib/github\<close> and \<^verbatim>\<open>./lib/projects\<close>
  are not among the sources, and \<^verbatim>\<open>child_process\<close>, \<^verbatim>\<open>fs\<close>,
  \<^verbatim>\<open>path\<close> and \<^verbatim>\<open>simple-git\<close> are external. Each function the action
  calls is a parameter: a field of the environment, which answers a call from the
  events that happened so far (the first argument) and the arguments of the call.
  Nothing is assumed about the answers: a call may return, throw or end the process,
  \<^verbatim>\<open>Logger.error\<close> included.

  Four calls are taken to be functions of their arguments that always return:
  \<^verbatim>\<open>shouldAutomateChangelog\<close> (a test of the body),
  \<^verbatim>\<open>nodePath.join\<close>, \<^verbatim>\<open>existsSync\<close> (which reads the file system, so it
  is given the events so far) and \<^verbatim>\<open>isGithubCI\<close> (which reads the environment
  of the process: one answer for the whole run). \<^verbatim>\<open>getChangelogDetails\<close> is a
  function of the body that may also throw or end the process. Building the
  \<^verbatim>\<open>simpleGit\<close> object (line 170) is no call: the object is the record of its
  arguments, carried by every git event.
\<close>

record env =
  getPullRequestData :: "trace \<Rightarrow> string \<Rightarrow> string \<Rightarrow> string \<Rightarrow> pull_request_data result"
  shouldAutomateChangelog :: "string \<Rightarrow> bool"
  getChangelogDetails :: "string \<Rightarrow> changelog_details result"
  cloneAuthenticatedRepo :: "trace \<Rightarrow> string \<Rightarrow> string \<Rightarrow> bool \<Rightarrow> string result"
  checkoutRemoteBranch :: "trace \<Rightarrow> string \<Rightarrow> string \<Rightarrow> unit result"
  getTouchedProjectsRequiringChangelog ::
    "trace \<Rightarrow> string \<Rightarrow> string \<Rightarrow> string \<Rightarrow> string \<Rightarrow> string \<Rightarrow> string \<Rightarrow> string list result"
  getAllProjectPaths :: "trace \<Rightarrow> string \<Rightarrow> string list result"
  nodePathJoin :: "string list \<Rightarrow> string"
  existsSync :: "trace \<Rightarrow> string \<Rightarrow> bool"
  execSync :: "trace \<Rightarrow> string \<Rightarrow> string \<Rightarrow> unit result"
  loggerError :: "trace \<Rightarrow> error \<Rightarrow> unit result"
  isGithubCI :: bool
  gitRaw :: "trace \<Rightarrow> git \<Rightarrow> string list \<Rightarrow> string result"
  gitAdd :: "trace \<Rightarrow> git \<Rightarrow> string \<Rightarrow> unit result"
  gitCommit :: "trace \<Rightarrow> git \<Rightarrow> string \<Rightarrow> unit result"
  gitPush :: "trace \<Rightarrow> git \<Rightarrow> string \<Rightarrow> string \<Rightarrow> unit result"

section \<open>Sequencing\<close>

text \<open>
  A program reads the events so far and yields the events it adds, in order, with its
  result.
\<close>

type_synonym 'a prog = "trace \<Rightarrow> trace \<times> 'a result"

definition ret :: "'a \<Rightarrow> 'a prog" where
  "ret v h = ([], Ok v)"

definition exit :: "nat \<Rightarrow> 'a prog" where
  "exit n h = ([], Exit n)"

text \<open>
  Modelled from the spec: \<^verbatim>\<open>Logger.startTask\<close>, \<^verbatim>\<open>Logger.endTask\<close> and
  \<^verbatim>\<open>Logger.notice\<close> of \<^verbatim>\<open>../core/logger\<close>, which is not among the sources.
  The spec has logging as process-wide printing: such a call is an event that returns.
\<close>

definition emit :: "event \<Rightarrow> unit prog" where
  "emit e h = ([e], Ok ())"

definition call :: "(trace \<Rightarrow> 'a result) \<Rightarrow> ('a result \<Rightarrow> event) \<Rightarrow> 'a prog" where
  "call f ev h = ([ev (f h)], f h)"

definition bind :: "'a prog \<Rightarrow> ('a \<Rightarrow> 'b prog) \<Rightarrow> 'b prog" where
  "bind m f h =
     (case m h of
        (es, Ok v) \<Rightarrow> (case f v (h @ es) of (es', r) \<Rightarrow> (es @ es', r))
      | (es, Throw e) \<Rightarrow> (es, Throw e)
      | (es, Exit n) \<Rightarrow> (es, Exit n))"

definition seq :: "unit prog \<Rightarrow> 'b prog \<Rightarrow> 'b prog" where
  "seq m k = bind m (\<lambda>_. k)"

text \<open>\<^verbatim>\<open>try { m } catch ( e ) { handler( e ) }\<close>: only a thrown value is caught.\<close>

definition try_catch :: "'a prog \<Rightarrow> (error \<Rightarrow> 'a prog) \<Rightarrow> 'a prog" where
  "try_catch m handler h =
     (case m h of
        (es, Throw e) \<Rightarrow> (case handler e (h @ es) of (es', r) \<Rightarrow> (es @ es', r))
      | (es, r) \<Rightarrow> (es, r))"

text \<open>Events put in front of what a program yields.\<close>

definition prepend :: "trace \<Rightarrow> trace \<times> 'a result \<Rightarrow> trace \<times> 'a result" where
  "prepend es p = (es @ fst p, snd p)"

text \<open>A synchronous call that cannot fail and answers with a truth value.\<close>

definition ask :: "(trace \<Rightarrow> bool) \<Rightarrow> (bool \<Rightarrow> event) \<Rightarrow> bool prog" where
  "ask f ev h = ([ev (f h)], Ok (f h))"

text \<open>A call that is not recorded (a function of its arguments alone).\<close>

definition lift :: "'a result \<Rightarrow> 'a prog" where
  "lift r h = ([], r)"

section \<open>The action of the changefile command\<close>

text \<open>
  JavaScript truthiness of an optional string: \<^verbatim>\<open>undefined\<close> and the empty
  string are falsy.
\<close>

definition truthy :: "string option \<Rightarrow> bool" where
  "truthy s = (case s of None \<Rightarrow> False | Some v \<Rightarrow> v \<noteq> [])"

text \<open>\<^verbatim>\<open>Array.prototype.join\<close>.\<close>

fun join :: "string \<Rightarrow> string list \<Rightarrow> string" where
  "join sep [] = []"
| "join sep [x] = x"
| "join sep (x # y # ys) = x @ sep @ join sep (y # ys)"

text \<open>Lines 151--153 and 154--156: the two optional expressions of the command.\<close>

definition messageExpression :: "string option \<Rightarrow> string" where
  \<open>messageExpression msg =
     (case msg of
        None \<Rightarrow> []
      | Some m \<Rightarrow> if m \<noteq> [] then ''-e "'' @ m @ ''"'' else [])\<close>

definition commentExpression :: "string option \<Rightarrow> string" where
  \<open>commentExpression cmt =
     (case cmt of
        None \<Rightarrow> []
      | Some c \<Rightarrow> if c \<noteq> [] then ''-c "'' @ c @ ''"'' else [])\<close>

text \<open>Line 157: the command string handed to the shell for one project.\<close>

definition changelogCmd :: "string \<Rightarrow> string \<Rightarrow> changelog_details \<Rightarrow> string" where
  "changelogCmd project fname details =
     ''pnpm --filter='' @ project @ '' run changelog add -f '' @ fname
       @ '' -s '' @ significance details @ '' -t '' @ type details
       @ '' '' @ messageExpression (message details)
       @ '' '' @ commentExpression (comment details) @ '' -n''"

text \<open>Lines 111--129: the loop over all project paths that removes existing files.\<close>

fun removeExisting :: "env \<Rightarrow> string \<Rightarrow> string \<Rightarrow> string list \<Rightarrow> unit prog" where
  "removeExisting E tmpRepoPath fname [] = ret ()"
| "removeExisting E tmpRepoPath fname (projectPath # rest) =
     (let path = nodePathJoin E [tmpRepoPath, projectPath, ''changelog'', fname] in
      bind (ask (\<lambda>h. existsSync E h path) (ExistsSync path)) (\<lambda>ex.
      seq (if ex
           then seq (emit (Notice (''Remove existing changelog file '' @ path)))
                    (call (\<lambda>h. execSync E h (''rm '' @ path) tmpRepoPath)
                          (ExecSync (''rm '' @ path) tmpRepoPath))
           else ret ())
          (removeExisting E tmpRepoPath fname rest)))"

text \<open>Lines 147--159: the loop over the touched projects that runs the generator.\<close>

fun runChangelogCommands ::
  "env \<Rightarrow> string \<Rightarrow> string \<Rightarrow> changelog_details \<Rightarrow> string list \<Rightarrow> unit prog" where
  "runChangelogCommands E tmpRepoPath fname details [] = ret ()"
| "runChangelogCommands E tmpRepoPath fname details (project # rest) =
     seq (emit (Notice (''Running changelog command for '' @ project)))
    (seq (call (\<lambda>h. execSync E h (changelogCmd project fname details) tmpRepoPath)
               (ExecSync (changelogCmd project fname details) tmpRepoPath))
         (runChangelogCommands E tmpRepoPath fname details rest))"

text \<open>Lines 106--159: the body of the \<^verbatim>\<open>try\<close> block.\<close>

definition tryBody ::
  "env \<Rightarrow> options \<Rightarrow> string \<Rightarrow> string \<Rightarrow> changelog_details \<Rightarrow> string list \<Rightarrow> unit prog" where
  "tryBody E opts tmpRepoPath fname details touched =
     bind (call (\<lambda>h. getAllProjectPaths E h tmpRepoPath) (GetAllProjectPaths tmpRepoPath))
       (\<lambda>allProjectPaths.
     seq (emit (Notice ''Removing existing changelog files in case a change is reverted and the entry is no longer needed''))
    (seq (removeExisting E tmpRepoPath fname allProjectPaths)
    (if length touched = 0
     then seq (emit (Notice ''No projects require a changelog'')) (exit 0)
     else
     seq (if \<not> truthy (devRepoPath opts)
          then seq (emit (Notice (''Installing dependencies in '' @ tmpRepoPath)))
                   (call (\<lambda>h. execSync E h ''pnpm install'' tmpRepoPath)
                         (ExecSync ''pnpm install'' tmpRepoPath))
          else ret ())
         (runChangelogCommands E tmpRepoPath fname details touched))))"

text \<open>Lines 170--203: identity configuration, status, add, commit and push.\<close>

definition commitAndPush :: "env \<Rightarrow> string \<Rightarrow> string \<Rightarrow> unit prog" where
  "commitAndPush E tmpRepoPath br =
     (let g = \<lparr>baseDir = tmpRepoPath, config = [''core.hooksPath=/dev/null'']\<rparr> in
      seq (if isGithubCI E
           then bind (call (\<lambda>h. gitRaw E h g
                               [''config'', ''--global'', ''user.email'', ''github-actions@github.com''])
                           (GitRaw g [''config'', ''--global'', ''user.email'', ''github-actions@github.com'']))
                  (\<lambda>_.
                bind (call (\<lambda>h. gitRaw E h g
                               [''config'', ''--global'', ''user.name'', ''github-actions''])
                           (GitRaw g [''config'', ''--global'', ''user.name'', ''github-actions'']))
                  (\<lambda>_. ret ()))
           else ret ())
     (bind (call (\<lambda>h. gitRaw E h g [''status'', ''--short''])
                 (GitRaw g [''status'', ''--short'']))
        (\<lambda>shortStatus.
      if length shortStatus = 0
      then seq (emit (Notice ''No changes in changelog files. Skipping commit and push.''))
               (exit 0)
      else
      seq (emit (Notice ''Adding and committing changes''))
     (seq (call (\<lambda>h. gitAdd E h g ''.'') (GitAdd g ''.''))
     (seq (call (\<lambda>h. gitCommit E h g ''Adding changelog from automation.'')
                (GitCommit g ''Adding changelog from automation.''))
     (seq (call (\<lambda>h. gitPush E h g ''origin'' br) (GitPush g ''origin'' br))
          (emit (Notice (''Pushed changes to '' @ br)))))))))"

text \<open>Lines 105--203: everything after the touched projects are known.\<close>

definition generateAndCommit ::
  "env \<Rightarrow> options \<Rightarrow> string \<Rightarrow> string \<Rightarrow> string \<Rightarrow> changelog_details \<Rightarrow> string list
     \<Rightarrow> unit prog" where
  "generateAndCommit E opts tmpRepoPath br fname details touched =
     seq (try_catch (tryBody E opts tmpRepoPath fname details touched)
                    (\<lambda>e. call (\<lambda>h. loggerError E h e) (LoggerError e)))
    (seq (emit (Notice (''Changelogs created for '' @ join '', '' touched)))
         (commitAndPush E tmpRepoPath br))"

text \<open>Lines 43--205: the action.\<close>

definition changefile :: "env \<Rightarrow> string \<Rightarrow> options \<Rightarrow> unit prog" where
  \<open>changefile E prNumber opts =
     seq (emit (StartTask (''Getting pull request data for PR number '' @ prNumber)))
    (bind (call (\<lambda>h. getPullRequestData E h (owner opts) (name opts) prNumber)
                (GetPullRequestData (owner opts) (name opts) prNumber))
       (\<lambda>pr.
     seq (emit EndTask)
    (if \<not> shouldAutomateChangelog E (prBody pr)
     then seq (emit (Notice (''PR #'' @ prNumber
                 @ '' does not have the "Automatically create a changelog entry from the details" checkbox checked. No changelog will be created.'')))
              (exit 0)
     else
     bind (lift (getChangelogDetails E (prBody pr))) (\<lambda>details.
     seq (emit (StartTask (''Making a temporary clone of '' @ [CHR 0x27] @ headOwner pr
                 @ ''/'' @ name opts @ [CHR 0x27])))
    (bind (if truthy (devRepoPath opts)
           then (case devRepoPath opts of Some p \<Rightarrow> ret p | None \<Rightarrow> ret [])
           else call (\<lambda>h. cloneAuthenticatedRepo E h (headOwner pr) (name opts) False)
                     (CloneAuthenticatedRepo (headOwner pr) (name opts) False))
       (\<lambda>tmpRepoPath.
     seq (emit EndTask)
    (seq (emit (Notice (''Temporary clone of '' @ [CHR 0x27] @ headOwner pr @ ''/''
                 @ name opts @ [CHR 0x27] @ '' created at '' @ tmpRepoPath)))
    (seq (emit (Notice (''Checking out remote branch '' @ branch pr)))
    (seq (call (\<lambda>h. checkoutRemoteBranch E h tmpRepoPath (branch pr))
               (CheckoutRemoteBranch tmpRepoPath (branch pr)))
    (seq (emit (Notice ''Getting all touched projects requiring a changelog''))
    (bind (call (\<lambda>h. getTouchedProjectsRequiringChangelog E h tmpRepoPath (base pr) (head pr)
                        (fileName pr) (owner opts) (name opts))
                (GetTouchedProjectsRequiringChangelog tmpRepoPath (base pr) (head pr)
                        (fileName pr) (owner opts) (name opts)))
       (\<lambda>touched.
     generateAndCommit E opts tmpRepoPath (branch pr) (fileName pr) details touched))))))))))))\<close>

text \<open>
  The exit code of the process for a result of the action: the code given to
  \<^verbatim>\<open>process.exit\<close>, 0 when the action returns, and 1 (Node's code for an
  unhandled rejection) when it throws.
\<close>

definition exitCode :: "unit result \<Rightarrow> nat" where
  "exitCode r = (case r of Ok _ \<Rightarrow> 0 | Throw _ \<Rightarrow> 1 | Exit n \<Rightarrow> n)"

section \<open>Reading a trace\<close>

text \<open>
  The generator is recognised by the fixed head of the command of line 157, the
  installation by the command of line 141, a removal by the head of the command of
  line 124.
\<close>

definition isGenerationCmd :: "string \<Rightarrow> bool" where
  "isGenerationCmd c = prefix ''pnpm --filter='' c"

definition isRemovalCmd :: "string \<Rightarrow> bool" where
  "isRemovalCmd c = prefix ''rm '' c"

fun isGeneration :: "event \<Rightarrow> bool" where
  "isGeneration (ExecSync c d r) = isGenerationCmd c"
| "isGeneration _ = False"

fun isInstall :: "event \<Rightarrow> bool" where
  "isInstall (ExecSync c d r) = (c = ''pnpm install'')"
| "isInstall _ = False"

fun isRemoval :: "event \<Rightarrow> bool" where
  "isRemoval (ExecSync c d r) = isRemovalCmd c"
| "isRemoval _ = False"

fun isExec :: "event \<Rightarrow> bool" where
  "isExec (ExecSync c d r) = True"
| "isExec _ = False"

fun isClone :: "event \<Rightarrow> bool" where
  "isClone (CloneAuthenticatedRepo ow nm sh r) = True"
| "isClone _ = False"

fun isCheckout :: "event \<Rightarrow> bool" where
  "isCheckout (CheckoutRemoteBranch p b r) = True"
| "isCheckout _ = False"

fun isGit :: "event \<Rightarrow> bool" where
  "isGit (GitRaw g args r) = True"
| "isGit (GitAdd g p r) = True"
| "isGit (GitCommit g m r) = True"
| "isGit (GitPush g rem b r) = True"
| "isGit _ = False"

fun isAdd :: "event \<Rightarrow> bool" where
  "isAdd (GitAdd g p r) = True"
| "isAdd _ = False"

fun isCommit :: "event \<Rightarrow> bool" where
  "isCommit (GitCommit g m r) = True"
| "isCommit _ = False"

fun isPush :: "event \<Rightarrow> bool" where
  "isPush (GitPush g rem b r) = True"
| "isPush _ = False"

text \<open>A call that did not return: it threw or ended the process.\<close>

fun failed :: "event \<Rightarrow> bool" where
  "failed (LoggerError e r) = (r \<noteq> Ok ())"
| "failed (GetPullRequestData ow nm n r) = (\<forall>v. r \<noteq> Ok v)"
| "failed (CloneAuthenticatedRepo ow nm sh r) = (\<forall>v. r \<noteq> Ok v)"
| "failed (CheckoutRemoteBranch p b r) = (r \<noteq> Ok ())"
| "failed (GetTouchedProjectsRequiringChangelog p b hc f ow nm r) = (\<forall>v. r \<noteq> Ok v)"
| "failed (GetAllProjectPaths p r) = (\<forall>v. r \<noteq> Ok v)"
| "failed (ExecSync c d r) = (r \<noteq> Ok ())"
| "failed (GitRaw g args r) = (\<forall>v. r \<noteq> Ok v)"
| "failed (GitAdd g p r) = (r \<noteq> Ok ())"
| "failed (GitCommit g m r) = (r \<noteq> Ok ())"
| "failed (GitPush g rem b r) = (r \<noteq> Ok ())"
| "failed _ = False"

text \<open>The commands handed to \<^verbatim>\<open>execSync\<close>, in the order of the calls.\<close>

fun commands :: "trace \<Rightarrow> string list" where
  "commands [] = []"
| "commands (ExecSync c d r # es) = c # commands es"
| "commands (_ # es) = commands es"

text \<open>The final notice of line 164.\<close>

fun isCreatedNotice :: "event \<Rightarrow> bool" where
  "isCreatedNotice (Notice s) = prefix ''Changelogs created for '' s"
| "isCreatedNotice _ = False"

text \<open>The events of the removal loop (lines 111--129).\<close>

fun removalEvent :: "string \<Rightarrow> event \<Rightarrow> bool" where
  "removalEvent tmpRepoPath (ExistsSync p b) = True"
| "removalEvent tmpRepoPath (Notice s) = prefix ''Remove existing changelog file '' s"
| "removalEvent tmpRepoPath (ExecSync c d r) = (isRemovalCmd c \<and> d = tmpRepoPath)"
| "removalEvent tmpRepoPath _ = False"

text \<open>The events of the generation loop (lines 147--159).\<close>

fun generationEvent :: "string \<Rightarrow> event \<Rightarrow> bool" where
  "generationEvent tmpRepoPath (Notice s) = prefix ''Running changelog command for '' s"
| "generationEvent tmpRepoPath (ExecSync c d r) = (isGenerationCmd c \<and> d = tmpRepoPath)"
| "generationEvent tmpRepoPath _ = False"

text \<open>A failing result handed on unchanged to the caller.\<close>

definition raised :: "'a result \<Rightarrow> 'b result \<Rightarrow> bool" where
  "raised r0 r = (case r0 of Ok _ \<Rightarrow> False | Throw e \<Rightarrow> r = Throw e | Exit n \<Rightarrow> r = Exit n)"

text \<open>The events of the commit step (lines 170--203).\<close>

fun commitEvent :: "event \<Rightarrow> bool" where
  "commitEvent (Notice s) = (\<not> prefix ''Changelogs created for '' s)"
| "commitEvent (GitRaw g args r) = True"
| "commitEvent (GitAdd g p r) = True"
| "commitEvent (GitCommit g m r) = True"
| "commitEvent (GitPush g rem b r) = True"
| "commitEvent _ = False"

text \<open>The events of the \<^verbatim>\<open>try\<close> block (lines 106--159).\<close>

fun tryEvent :: "event \<Rightarrow> bool" where
  "tryEvent (GetAllProjectPaths p r) = True"
| "tryEvent (ExistsSync p b) = True"
| "tryEvent (Notice s) = (\<not> prefix ''Changelogs created for '' s)"
| "tryEvent (ExecSync c d r) = True"
| "tryEvent _ = False"

text \<open>The events of lines 105--203.\<close>

fun lateEvent :: "event \<Rightarrow> bool" where
  "lateEvent (StartTask s) = False"
| "lateEvent EndTask = False"
| "lateEvent (GetPullRequestData ow nm n r) = False"
| "lateEvent (CloneAuthenticatedRepo ow nm sh r) = False"
| "lateEvent (CheckoutRemoteBranch p b r) = False"
| "lateEvent (GetTouchedProjectsRequiringChangelog p b hc f ow nm r) = False"
| "lateEvent _ = True"

text \<open>The events of lines 53--103 when every call returns.\<close>

fun preludeEvent :: "event \<Rightarrow> bool" where
  "preludeEvent (StartTask s) = True"
| "preludeEvent EndTask = True"
| "preludeEvent (Notice s) = (\<not> prefix ''Changelogs created for '' s)"
| "preludeEvent (GetPullRequestData ow nm n r) = (\<exists>v. r = Ok v)"
| "preludeEvent (CloneAuthenticatedRepo ow nm sh r) = (\<exists>v. r = Ok v)"
| "preludeEvent (CheckoutRemoteBranch p b r) = (r = Ok ())"
| "preludeEvent (GetTouchedProjectsRequiringChangelog p b hc f ow nm r) = (\<exists>v. r = Ok v)"
| "preludeEvent _ = False"

text \<open>The events that only occur once the touched projects are known (line 103).\<close>

fun reachedEvent :: "event \<Rightarrow> bool" where
  "reachedEvent (StartTask s) = False"
| "reachedEvent EndTask = False"
| "reachedEvent (Notice s) = prefix ''Changelogs created for '' s"
| "reachedEvent (GetPullRequestData ow nm n r) = False"
| "reachedEvent (CloneAuthenticatedRepo ow nm sh r) = False"
| "reachedEvent (CheckoutRemoteBranch p b r) = False"
| "reachedEvent (GetTouchedProjectsRequiringChangelog p b hc f ow nm r) = (\<exists>v. r = Ok v)"
| "reachedEvent _ = True"

text \<open>A result that aborts the run: a thrown value or a non-zero exit code.\<close>

definition aborts :: "'a result \<Rightarrow> bool" where
  "aborts r = (case r of Ok _ \<Rightarrow> False | Throw _ \<Rightarrow> True | Exit n \<Rightarrow> n \<noteq> 0)"

text \<open>The events after the \<^verbatim>\<open>try\<close> block (lines 160--203).\<close>

fun afterEvent :: "event \<Rightarrow> bool" where
  "afterEvent (LoggerError e r) = True"
| "afterEvent (Notice s) = True"
| "afterEvent (GitRaw g args r) = True"
| "afterEvent (GitAdd g p r) = True"
| "afterEvent (GitCommit g m r) = True"
| "afterEvent (GitPush g rem b r) = True"
| "afterEvent _ = False"


text \<open>The events of a run before its first call of the generator.\<close>

definition beforeFirstGeneration :: "trace \<Rightarrow> trace" where
  "beforeFirstGeneration es = takeWhile (\<lambda>x. \<not> isGeneration x) es"



section \<open>How the shell reads a double-quoted word\<close>









section \<open>Example runs\<close>

text \<open>
  A pull request of a fork that touches the projects \<open>a\<close> and \<open>b\<close> of a repository
  with the projects \<open>a\<close>, \<open>b\<close> and \<open>c\<close>; project \<open>c\<close> holds a file left by an
  earlier run, the generator fails for \<open>a\<close>, and the run is in continuous integration.
\<close>

definition exampleEnv :: env where
  "exampleEnv = \<lparr>
     getPullRequestData = (\<lambda>h ow nm n. Ok \<lparr>prBody = ''[x] auto'', headOwner = ''fork'',
        branch = ''fix'', fileName = ''f1'', head = ''h1'', base = ''b0''\<rparr>),
     shouldAutomateChangelog = (\<lambda>b. b = ''[x] auto''),
     getChangelogDetails = (\<lambda>b. Ok \<lparr>significance = ''patch'', type = ''fix'',
        message = Some ''Fix'', comment = None\<rparr>),
     cloneAuthenticatedRepo = (\<lambda>h ow nm sh. Ok ''/r''),
     checkoutRemoteBranch = (\<lambda>h p b. Ok ()),
     getTouchedProjectsRequiringChangelog = (\<lambda>h p b hc f ow nm. Ok [''a'', ''b'']),
     getAllProjectPaths = (\<lambda>h p. Ok [''a'', ''b'', ''c'']),
     nodePathJoin = join ''/'',
     existsSync = (\<lambda>h p. p = ''/r/c/changelog/f1''),
     execSync = (\<lambda>h c d. if prefix ''pnpm --filter=a '' c then Throw (Error ''failed'') else Ok ()),
     loggerError = (\<lambda>h e. Ok ()),
     isGithubCI = True,
     gitRaw = (\<lambda>h g args. if args = [''status'', ''--short''] then Ok ''?? b'' else Ok []),
     gitAdd = (\<lambda>h g p. Ok ()),
     gitCommit = (\<lambda>h g m. Ok ()),
     gitPush = (\<lambda>h g rem b. Ok ())
   \<rparr>"

definition exampleOptions :: options where
  "exampleOptions = \<lparr>owner = ''woocommerce'', name = ''woocommerce'', devRepoPath = None\<rparr>"

definition exampleGit :: git where
  "exampleGit = \<lparr>baseDir = ''/r'', config = [''core.hooksPath=/dev/null'']\<rparr>"

definition examplePR :: pull_request_data where
  "examplePR = \<lparr>prBody = ''[x] auto'', headOwner = ''fork'', branch = ''fix'', fileName = ''f1'',
     head = ''h1'', base = ''b0''\<rparr>"

text \<open>The same pull request with the checkbox left unchecked.\<close>

definition uncheckedEnv :: env where
  "uncheckedEnv = exampleEnv\<lparr>shouldAutomateChangelog := (\<lambda>b. False)\<rparr>"

text \<open>The same pull request with no significance in its body.\<close>

definition malformedEnv :: env where
  "malformedEnv = exampleEnv\<lparr>getChangelogDetails :=
     (\<lambda>b. Throw (Error ''No changelog significance found''))\<rparr>"

definition exampleDetails :: changelog_details where
  "exampleDetails = \<lparr>significance = ''patch'', type = ''fix'', message = Some ''Fix'',
     comment = None\<rparr>"

text \<open>The events of the example run up to the call of the generator for \<open>a\<close>.\<close>

definition exampleBefore :: trace where
  "exampleBefore =
     [StartTask ''Getting pull request data for PR number 7'',
      GetPullRequestData ''woocommerce'' ''woocommerce'' ''7'' (Ok examplePR),
      EndTask,
      StartTask (''Making a temporary clone of '' @ [CHR 0x27] @ ''fork/woocommerce'' @ [CHR 0x27]),
      CloneAuthenticatedRepo ''fork'' ''woocommerce'' False (Ok ''/r''),
      EndTask,
      Notice (''Temporary clone of '' @ [CHR 0x27] @ ''fork/woocommerce'' @ [CHR 0x27]
        @ '' created at /r''),
      Notice ''Checking out remote branch fix'',
      CheckoutRemoteBranch ''/r'' ''fix'' (Ok ()),
      Notice ''Getting all touched projects requiring a changelog'',
      GetTouchedProjectsRequiringChangelog ''/r'' ''b0'' ''h1'' ''f1'' ''woocommerce'' ''woocommerce''
        (Ok [''a'', ''b'']),
      GetAllProjectPaths ''/r'' (Ok [''a'', ''b'', ''c'']),
      Notice ''Removing existing changelog files in case a change is reverted and the entry is no longer needed'',
      ExistsSync ''/r/a/changelog/f1'' False,
      ExistsSync ''/r/b/changelog/f1'' False,
      ExistsSync ''/r/c/changelog/f1'' True,
      Notice ''Remove existing changelog file /r/c/changelog/f1'',
      ExecSync ''rm /r/c/changelog/f1'' ''/r'' (Ok ()),
      Notice ''Installing dependencies in /r'',
      ExecSync ''pnpm install'' ''/r'' (Ok ()),
      Notice ''Running changelog command for a'']"

text \<open>The failing call of the generator for \<open>a\<close>.\<close>

definition exampleFailure :: event where
  "exampleFailure =
     ExecSync (changelogCmd ''a'' ''f1'' exampleDetails) ''/r'' (Throw (Error ''failed''))"

text \<open>The events of the example run after it.\<close>

definition exampleAfter :: trace where
  "exampleAfter =
     [LoggerError (Error ''failed'') (Ok ()),
      Notice ''Changelogs created for a, b'',
      GitRaw exampleGit [''config'', ''--global'', ''user.email'', ''github-actions@github.com''] (Ok []),
      GitRaw exampleGit [''config'', ''--global'', ''user.name'', ''github-actions''] (Ok []),
      GitRaw exampleGit [''status'', ''--short''] (Ok ''?? b''),
      Notice ''Adding and committing changes'',
      GitAdd exampleGit ''.'' (Ok ()),
      GitCommit exampleGit ''Adding changelog from automation.'' (Ok ()),
      GitPush exampleGit ''origin'' ''fix'' (Ok ()),
      Notice ''Pushed changes to fix'']"

text \<open>The same pull request when no touched project requires a changelog.\<close>

definition noneTouchedEnv :: env where
  "noneTouchedEnv = exampleEnv\<lparr>getTouchedProjectsRequiringChangelog :=
     (\<lambda>h p b hc f ow nm. Ok [])\<rparr>"

definition noneTouchedTrace :: trace where
  "noneTouchedTrace =
     [StartTask ''Getting pull request data for PR number 7'',
      GetPullRequestData ''woocommerce'' ''woocommerce'' ''7'' (Ok examplePR),
      EndTask,
      StartTask (''Making a temporary clone of '' @ [CHR 0x27] @ ''fork/woocommerce'' @ [CHR 0x27]),
      CloneAuthenticatedRepo ''fork'' ''woocommerce'' False (Ok ''/r''),
      EndTask,
      Notice (''Temporary clone of '' @ [CHR 0x27] @ ''fork/woocommerce'' @ [CHR 0x27]
        @ '' created at /r''),
      Notice ''Checking out remote branch fix'',
      CheckoutRemoteBranch ''/r'' ''fix'' (Ok ()),
      Notice ''Getting all touched projects requiring a changelog'',
      GetTouchedProjectsRequiringChangelog ''/r'' ''b0'' ''h1'' ''f1'' ''woocommerce'' ''woocommerce''
        (Ok []),
      GetAllProjectPaths ''/r'' (Ok [''a'', ''b'', ''c'']),
      Notice ''Removing existing changelog files in case a change is reverted and the entry is no longer needed'',
      ExistsSync ''/r/a/changelog/f1'' False,
      ExistsSync ''/r/b/changelog/f1'' False,
      ExistsSync ''/r/c/changelog/f1'' True,
      Notice ''Remove existing changelog file /r/c/changelog/f1'',
      ExecSync ''rm /r/c/changelog/f1'' ''/r'' (Ok ()),
      Notice ''No projects require a changelog'']"

text \<open>The options of a run on an existing repository.\<close>

definition devOptions :: options where
  "devOptions = \<lparr>owner = ''woocommerce'', name = ''woocommerce'', devRepoPath = Some ''/dev''\<rparr>"


text \<open>The commit step when the status is \<open>st\<close>, which is not empty.\<close>

definition committed :: "string \<Rightarrow> trace" where
  "committed st =
     [Notice ''Changelogs created for a, b'',
      GitRaw exampleGit [''config'', ''--global'', ''user.email'', ''github-actions@github.com''] (Ok []),
      GitRaw exampleGit [''config'', ''--global'', ''user.name'', ''github-actions''] (Ok []),
      GitRaw exampleGit [''status'', ''--short''] (Ok st),
      Notice ''Adding and committing changes'',
      GitAdd exampleGit ''.'' (Ok ()),
      GitCommit exampleGit ''Adding changelog from automation.'' (Ok ()),
      GitPush exampleGit ''origin'' ''fix'' (Ok ()),
      Notice ''Pushed changes to fix'']"

text \<open>The same pull request when the generator returns for every project.\<close>

definition succeedingEnv :: env where
  "succeedingEnv = exampleEnv\<lparr>execSync := (\<lambda>h c d. Ok ())\<rparr>"

text \<open>The events of that run from the first call of the generator to the last.\<close>

definition succeedingGenerations :: trace where
  "succeedingGenerations =
     [ExecSync (changelogCmd ''a'' ''f1'' exampleDetails) ''/r'' (Ok ()),
      Notice ''Running changelog command for b'',
      ExecSync (changelogCmd ''b'' ''f1'' exampleDetails) ''/r'' (Ok ())]"




definition shortStatus :: "string list \<times> string list \<Rightarrow> string" where
  "shortStatus w =
     join [CHR 0x0A]
       (map (\<lambda>p. '' D '' @ p) (filter (\<lambda>p. p \<notin> set (fst w)) (snd w))
        @ map (\<lambda>p. ''?? '' @ p) (filter (\<lambda>p. p \<notin> set (snd w)) (fst w)))"













section \<open>Laws of sequencing\<close>

lemma fst_prepend [simp]: "fst (prepend es p) = es @ fst p"
  and snd_prepend [simp]: "snd (prepend es p) = snd p"
  by (simp_all add: prepend_def)

lemma prepend_prepend [simp]: "prepend es (prepend es' p) = prepend (es @ es') p"
  by (simp add: prepend_def)

lemma prepend_Nil [simp]: "prepend [] p = p"
  by (simp add: prepend_def)

lemma bind_prepend: 
  "bind m f h = (case snd (m h) of Ok v \<Rightarrow> prepend (fst (m h)) (f v (h @ fst (m h)))
       | Throw e \<Rightarrow> (fst (m h), Throw e) | Exit n \<Rightarrow> (fst (m h), Exit n))"
  by (simp add: bind_def prepend_def split: prod.splits result.splits)

lemma seq_emit [simp]: "seq (emit e) k h = prepend [e] (k (h @ [e]))"
  by (simp add: seq_def bind_prepend emit_def)

lemma bind_call [simp]:
  "bind (call f ev) k h =
     (case f h of
        Ok v \<Rightarrow> prepend [ev (Ok v)] (k v (h @ [ev (Ok v)]))
      | Throw e \<Rightarrow> ([ev (Throw e)], Throw e)
      | Exit n \<Rightarrow> ([ev (Exit n)], Exit n))"
  by (simp add: bind_prepend call_def split: result.splits)

lemma seq_call [simp]:
  "seq (call f ev) k h =
     (case f h of
        Ok v \<Rightarrow> prepend [ev (Ok v)] (k (h @ [ev (Ok v)]))
      | Throw e \<Rightarrow> ([ev (Throw e)], Throw e)
      | Exit n \<Rightarrow> ([ev (Exit n)], Exit n))"
  by (simp add: seq_def)

lemma bind_ask [simp]:
  "bind (ask f ev) k h = prepend [ev (f h)] (k (f h) (h @ [ev (f h)]))"
  by (simp add: bind_prepend ask_def)

lemma bind_lift [simp]:
  "bind (lift r) k h =
     (case r of Ok v \<Rightarrow> k v h | Throw e \<Rightarrow> ([], Throw e) | Exit n \<Rightarrow> ([], Exit n))"
  by (simp add: bind_prepend lift_def split: result.splits)

lemma bind_ret [simp]: "bind (ret v) k h = k v h"
  by (simp add: bind_prepend ret_def)

lemma seq_ret [simp]: "seq (ret ()) k h = k h"
  by (simp add: seq_def)

lemma exit_apply [simp]: "exit n h = ([], Exit n)"
  by (simp add: exit_def)

lemma emit_apply [simp]: "emit e h = ([e], Ok ())"
  by (simp add: emit_def)

lemma call_apply [simp]: "call f ev h = ([ev (f h)], f h)"
  by (simp add: call_def)

lemma ret_apply [simp]: "ret v h = ([], Ok v)"
  by (simp add: ret_def)

lemma prepend_pair [simp]: "prepend es (es', r) = (es @ es', r)"
  by (simp add: prepend_def)



lemma bind_assoc [simp]: "bind (bind m f) g = bind m (\<lambda>x. bind (f x) g)"
  by (rule ext) (simp add: bind_def split: prod.splits result.splits)

lemma seq_assoc [simp]: "seq (seq a b) c = seq a (seq b c)"
  by (simp add: seq_def)

lemma seq_bind [simp]: "seq (bind m f) k = bind m (\<lambda>x. seq (f x) k)"
  by (simp add: seq_def)

lemma bind_seq [simp]: "bind (seq a b) f = seq a (bind b f)"
  by (simp add: seq_def)

section \<open>Kinds of events\<close>

lemma unique_split:
  assumes "A @ x # B = pre @ y # post"
    and "\<forall>a\<in>set A. \<not> Q a" and "Q y"
    and "\<forall>b\<in>set B. \<not> R b" and "R y"
  shows "pre = A \<and> y = x \<and> post = B"
  using assms
  by (auto simp: append_eq_append_conv2 Cons_eq_append_conv append_eq_Cons_conv)

lemma preludeEvent_kinds:
  "preludeEvent x \<Longrightarrow>
     \<not> failed x \<and> \<not> isExec x \<and> \<not> isGeneration x \<and> \<not> isInstall x \<and> \<not> isRemoval x
     \<and> \<not> isGit x \<and> \<not> isAdd x \<and> \<not> isCommit x \<and> \<not> isPush x \<and> \<not> isCreatedNotice x"
  by (cases x) auto

lemma lateEvent_kinds:
  "lateEvent x \<Longrightarrow> \<not> isClone x \<and> \<not> isCheckout x"
  by (cases x) auto

lemma tryEvent_kinds:
  "tryEvent x \<Longrightarrow>
     \<not> isGit x \<and> \<not> isAdd x \<and> \<not> isCommit x \<and> \<not> isPush x \<and> \<not> isCreatedNotice x"
  by (cases x) auto

lemma afterEvent_kinds:
  "afterEvent x \<Longrightarrow>
     \<not> isExec x \<and> \<not> isGeneration x \<and> \<not> isInstall x \<and> \<not> isRemoval x"
  by (cases x) auto

lemma commitEvent_afterEvent: "commitEvent x \<Longrightarrow> afterEvent x"
  by (cases x) auto

lemma commitEvent_kinds: "commitEvent x \<Longrightarrow> \<not> isCreatedNotice x"
  by (cases x) auto


lemma not_reached_no_exec:
  assumes "\<not> (\<exists>x\<in>set es. reachedEvent x)"
  shows "filter isInstall es = []" "filter isGeneration es = []"
proof -
  have "\<And>x. isInstall x \<Longrightarrow> reachedEvent x" "\<And>x. isGeneration x \<Longrightarrow> reachedEvent x"
    subgoal for x by (cases x) auto
    subgoal for x by (cases x) auto
    done
  then show "filter isInstall es = []" "filter isGeneration es = []"
    using assms by (auto simp: filter_empty_conv)
qed

lemma not_in_prelude: "\<forall>y\<in>set P. preludeEvent y \<Longrightarrow> \<not> preludeEvent x \<Longrightarrow> x \<notin> set P"
  by blast

lemma not_in_after: "\<forall>y\<in>set rest. afterEvent y \<Longrightarrow> \<not> afterEvent x \<Longrightarrow> x \<notin> set rest"
  by blast

lemma prelude_filters:
  assumes "\<forall>y\<in>set P. preludeEvent y"
  shows "filter isInstall P = []" "filter isGeneration P = []"
    "takeWhile (\<lambda>x. \<not> isGeneration x) (P @ ys) = P @ takeWhile (\<lambda>x. \<not> isGeneration x) ys"
  using assms preludeEvent_kinds by (auto simp: filter_empty_conv intro!: takeWhile_append2)

lemma after_filters:
  assumes "\<forall>y\<in>set rest. afterEvent y"
  shows "filter isInstall rest = []" "filter isGeneration rest = []"
  using assms afterEvent_kinds by (auto simp: filter_empty_conv)

lemma butlast_filter_subset: "set (butlast (filter P xs)) \<subseteq> set (butlast xs)"
proof (induction xs rule: rev_induct)
  case Nil
  then show ?case by simp
next
  case (snoc x xs)
  then show ?case by (auto simp: butlast_append dest: in_set_butlastD)
qed

section \<open>The two loops\<close>

lemma removalEvent_kinds:
  "removalEvent t x \<Longrightarrow>
     \<not> isGeneration x \<and> \<not> isInstall x \<and> \<not> isGit x \<and> \<not> isClone x \<and> \<not> isCheckout x
     \<and> \<not> isCreatedNotice x \<and> \<not> isAdd x \<and> \<not> isCommit x \<and> \<not> isPush x"
  by (cases x) (auto simp: isGenerationCmd_def isRemovalCmd_def prefix_def)

lemma generationEvent_kinds:
  "generationEvent t x \<Longrightarrow>
     \<not> isRemoval x \<and> \<not> isInstall x \<and> \<not> isGit x \<and> \<not> isClone x \<and> \<not> isCheckout x
     \<and> \<not> isCreatedNotice x \<and> \<not> isAdd x \<and> \<not> isCommit x \<and> \<not> isPush x"
  by (cases x) (auto simp: isGenerationCmd_def isRemovalCmd_def prefix_def)

lemma removeExisting_events:
  "x \<in> set (fst (removeExisting E tmp f ps h)) \<Longrightarrow> removalEvent tmp x"
proof (induction ps arbitrary: h)
  case Nil
  then show ?case by simp
next
  case (Cons p ps)
  then show ?case
    by (auto simp add: Let_def isRemovalCmd_def split: if_splits result.splits)
qed


lemma removeExisting_Ok:
  "snd (removeExisting E tmp f ps h) = Ok () \<Longrightarrow> x \<in> set (fst (removeExisting E tmp f ps h))
     \<Longrightarrow> \<not> failed x"
proof (induction ps arbitrary: h)
  case Nil
  then show ?case by simp
next
  case (Cons p ps)
  then show ?case
    by (auto simp add: Let_def split: if_splits result.splits)
qed

lemma removeExisting_butlast:
  "x \<in> set (butlast (fst (removeExisting E tmp f ps h))) \<Longrightarrow> \<not> failed x"
proof (induction ps arbitrary: h)
  case Nil
  then show ?case by simp
next
  case (Cons p ps)
  then show ?case
    by (auto simp add: Let_def butlast_append split: if_splits result.splits)
qed

lemma removeExisting_last:
  "snd (removeExisting E tmp f ps h) \<noteq> Ok () \<Longrightarrow>
     fst (removeExisting E tmp f ps h) \<noteq> [] \<and>
     (\<exists>c. last (fst (removeExisting E tmp f ps h)) = ExecSync c tmp (snd (removeExisting E tmp f ps h)))"
proof (induction ps arbitrary: h)
  case Nil
  then show ?case by simp
next
  case (Cons p ps)
  then show ?case
    by (auto simp add: Let_def split: if_splits result.splits)
qed



lemma runChangelogCommands_events:
  "x \<in> set (fst (runChangelogCommands E tmp f d ps h)) \<Longrightarrow> generationEvent tmp x"
proof (induction ps arbitrary: h)
  case Nil
  then show ?case by simp
next
  case (Cons p ps)
  then show ?case
    by (auto simp add: changelogCmd_def isGenerationCmd_def split: if_splits result.splits)
qed

lemma runChangelogCommands_Ok:
  "snd (runChangelogCommands E tmp f d ps h) = Ok () \<Longrightarrow>
     x \<in> set (fst (runChangelogCommands E tmp f d ps h)) \<Longrightarrow> \<not> failed x"
proof (induction ps arbitrary: h)
  case Nil
  then show ?case by simp
next
  case (Cons p ps)
  then show ?case
    by (auto split: if_splits result.splits)
qed

lemma runChangelogCommands_butlast:
  "x \<in> set (butlast (fst (runChangelogCommands E tmp f d ps h))) \<Longrightarrow> \<not> failed x"
proof (induction ps arbitrary: h)
  case Nil
  then show ?case by simp
next
  case (Cons p ps)
  then show ?case
    by (auto simp add: butlast_append split: if_splits result.splits)
qed

lemma runChangelogCommands_last:
  "snd (runChangelogCommands E tmp f d ps h) \<noteq> Ok () \<Longrightarrow>
     fst (runChangelogCommands E tmp f d ps h) \<noteq> [] \<and>
     (\<exists>c. last (fst (runChangelogCommands E tmp f d ps h))
            = ExecSync c tmp (snd (runChangelogCommands E tmp f d ps h)))"
proof (induction ps arbitrary: h)
  case Nil
  then show ?case by simp
next
  case (Cons p ps)
  then show ?case
    by (auto split: if_splits result.splits)
qed

lemma runChangelogCommands_commands_Ok:
  "snd (runChangelogCommands E tmp f d ps h) = Ok () \<Longrightarrow>
     commands (fst (runChangelogCommands E tmp f d ps h)) = map (\<lambda>p. changelogCmd p f d) ps"
proof (induction ps arbitrary: h)
  case Nil
  then show ?case by simp
next
  case (Cons p ps)
  then show ?case
    by (auto split: if_splits result.splits)
qed

lemma runChangelogCommands_commands_prefix:
  "prefix (commands (fst (runChangelogCommands E tmp f d ps h))) (map (\<lambda>p. changelogCmd p f d) ps)"
proof (induction ps arbitrary: h)
  case Nil
  then show ?case by simp
next
  case (Cons p ps)
  then show ?case
    by (auto split: if_splits result.splits)
qed

lemma runChangelogCommands_nonempty:
  "ps \<noteq> [] \<Longrightarrow> \<exists>x\<in>set (fst (runChangelogCommands E tmp f d ps h)). isGeneration x"
  by (cases ps) (auto simp: changelogCmd_def isGenerationCmd_def split: result.splits)

lemma commands_append [simp]: "commands (xs @ ys) = commands xs @ commands ys"
  by (induction xs rule: commands.induct) simp_all

lemma commands_filter_generation:
  "\<forall>x\<in>set es. isExec x \<longrightarrow> isGeneration x \<Longrightarrow> commands (filter isGeneration es) = commands es"
  by (induction es rule: commands.induct) auto

section \<open>The try block\<close>

lemma tryBody_cases [case_names paths_failed removal_failed none_touched install_failed generated]:
  obtains
    rr where "\<forall>v. rr \<noteq> Ok v"
      "fst (tryBody E opts tmp f d touched h) = [GetAllProjectPaths tmp rr]"
      "raised rr (snd (tryBody E opts tmp f d touched h))"
  | ps h2 where
      "fst (tryBody E opts tmp f d touched h) =
         GetAllProjectPaths tmp (Ok ps)
         # Notice ''Removing existing changelog files in case a change is reverted and the entry is no longer needed''
         # fst (removeExisting E tmp f ps h2)"
      "snd (removeExisting E tmp f ps h2) \<noteq> Ok ()"
      "snd (tryBody E opts tmp f d touched h) = snd (removeExisting E tmp f ps h2)"
  | ps h2 where "touched = []"
      "fst (tryBody E opts tmp f d touched h) =
         GetAllProjectPaths tmp (Ok ps)
         # Notice ''Removing existing changelog files in case a change is reverted and the entry is no longer needed''
         # fst (removeExisting E tmp f ps h2) @ [Notice ''No projects require a changelog'']"
      "snd (removeExisting E tmp f ps h2) = Ok ()"
      "snd (tryBody E opts tmp f d touched h) = Exit 0"
  | ps h2 rr where "touched \<noteq> []" "\<not> truthy (devRepoPath opts)" "rr \<noteq> Ok ()"
      "fst (tryBody E opts tmp f d touched h) =
         GetAllProjectPaths tmp (Ok ps)
         # Notice ''Removing existing changelog files in case a change is reverted and the entry is no longer needed''
         # fst (removeExisting E tmp f ps h2)
         @ [Notice (''Installing dependencies in '' @ tmp), ExecSync ''pnpm install'' tmp rr]"
      "snd (removeExisting E tmp f ps h2) = Ok ()"
      "snd (tryBody E opts tmp f d touched h) = rr"
  | ps h2 h3 where "touched \<noteq> []"
      "fst (tryBody E opts tmp f d touched h) =
         GetAllProjectPaths tmp (Ok ps)
         # Notice ''Removing existing changelog files in case a change is reverted and the entry is no longer needed''
         # fst (removeExisting E tmp f ps h2)
         @ (if truthy (devRepoPath opts) then []
            else [Notice (''Installing dependencies in '' @ tmp), ExecSync ''pnpm install'' tmp (Ok ())])
         @ fst (runChangelogCommands E tmp f d touched h3)"
      "snd (removeExisting E tmp f ps h2) = Ok ()"
      "snd (tryBody E opts tmp f d touched h) = snd (runChangelogCommands E tmp f d touched h3)"
proof -
  let ?s0 = "''Removing existing changelog files in case a change is reverted and the entry is no longer needed''"
  show thesis
  proof (cases "getAllProjectPaths E h tmp")
    case (Throw e)
    then show thesis
      by (intro that(1)[where rr="Throw e"]) (simp_all add: tryBody_def raised_def)
  next
    case (Exit k)
    then show thesis
      by (intro that(1)[where rr="Exit k"]) (simp_all add: tryBody_def raised_def)
  next
    case ps: (Ok ps)
    let ?h2 = "h @ [GetAllProjectPaths tmp (Ok ps), Notice ?s0]"
    let ?R = "fst (removeExisting E tmp f ps ?h2)"
    show thesis
    proof (cases "snd (removeExisting E tmp f ps ?h2) = Ok ()")
      case False
      then show thesis using ps
        by (intro that(2)[where ps=ps and ?h2.0="?h2"])
           (auto simp add: tryBody_def seq_def[of "removeExisting E tmp f ps"] bind_prepend split: result.splits)
    next
      case rem: True
      show thesis
      proof (cases "touched = []")
        case True
        then show thesis using ps rem
          by (intro that(3)[where ps=ps and ?h2.0="?h2"])
             (auto simp add: tryBody_def seq_def[of "removeExisting E tmp f ps"] bind_prepend split: result.splits)
      next
        case ne: False
        let ?I = "[Notice (''Installing dependencies in '' @ tmp), ExecSync ''pnpm install'' tmp (Ok ())]"
        show thesis
        proof (cases "truthy (devRepoPath opts)")
          case True
          then show thesis using ps rem ne
            by (intro that(5)[where ps=ps and ?h2.0="?h2" and ?h3.0="?h2 @ ?R"])
               (auto simp add: tryBody_def seq_def[of "removeExisting E tmp f ps"] bind_prepend split: result.splits)
        next
          case nt: False
          let ?h3 = "?h2 @ ?R @ [Notice (''Installing dependencies in '' @ tmp)]"
          show thesis
          proof (cases "execSync E ?h3 ''pnpm install'' tmp = Ok ()")
            case True
            then show thesis using ps rem ne nt
              by (intro that(5)[where ps=ps and ?h2.0="?h2" and ?h3.0="?h2 @ ?R @ ?I"])
                 (auto simp add: tryBody_def seq_def[of "removeExisting E tmp f ps"] bind_prepend split: result.splits)
          next
            case False
            then show thesis using ps rem ne nt
              by (intro that(4)[where ps=ps and ?h2.0="?h2" and rr="execSync E ?h3 ''pnpm install'' tmp"])
                 (auto simp add: tryBody_def seq_def[of "removeExisting E tmp f ps"] bind_prepend split: result.splits)
          qed
        qed
      qed
    qed
  qed
qed

lemma removalEvent_tryEvent: "removalEvent t x \<Longrightarrow> tryEvent x"
  by (cases x) (auto simp: prefix_def)

lemma generationEvent_tryEvent: "generationEvent t x \<Longrightarrow> tryEvent x"
  by (cases x) (auto simp: prefix_def)

lemma in_set_butlast_or_last: "x \<in> set xs \<Longrightarrow> x \<in> set (butlast xs) \<or> x = last xs"
  by (induction xs) (auto split: if_splits)

lemma tryBody_events: "x \<in> set (fst (tryBody E opts tmp f d touched h)) \<Longrightarrow> tryEvent x"
proof (cases rule: tryBody_cases[of E opts tmp f d touched h])
  case (paths_failed rr)
  assume "x \<in> set (fst (tryBody E opts tmp f d touched h))"
  then show ?thesis using paths_failed by simp
next
  case (removal_failed ps h2)
  assume "x \<in> set (fst (tryBody E opts tmp f d touched h))"
  then show ?thesis using removal_failed
    by (auto dest: removeExisting_events removalEvent_tryEvent)
next
  case (none_touched ps h2)
  assume "x \<in> set (fst (tryBody E opts tmp f d touched h))"
  then show ?thesis using none_touched
    by (auto dest: removeExisting_events removalEvent_tryEvent)
next
  case (install_failed ps h2 rr)
  assume "x \<in> set (fst (tryBody E opts tmp f d touched h))"
  then show ?thesis using install_failed
    by (auto dest: removeExisting_events removalEvent_tryEvent)
next
  case (generated ps h2 h3)
  assume "x \<in> set (fst (tryBody E opts tmp f d touched h))"
  then show ?thesis using generated
    by (auto dest: removeExisting_events removalEvent_tryEvent
          runChangelogCommands_events generationEvent_tryEvent split: if_splits)
qed

lemma tryBody_butlast:
  "x \<in> set (butlast (fst (tryBody E opts tmp f d touched h))) \<Longrightarrow> \<not> failed x"
proof (cases rule: tryBody_cases[of E opts tmp f d touched h])
  case (paths_failed rr)
  assume "x \<in> set (butlast (fst (tryBody E opts tmp f d touched h)))"
  then show ?thesis using paths_failed by simp
next
  case (removal_failed ps h2)
  assume "x \<in> set (butlast (fst (tryBody E opts tmp f d touched h)))"
  then show ?thesis using removal_failed removeExisting_last[of E tmp f ps h2]
    by (auto dest: removeExisting_butlast)
next
  case (none_touched ps h2)
  assume "x \<in> set (butlast (fst (tryBody E opts tmp f d touched h)))"
  then show ?thesis using none_touched
    by (auto simp: butlast_append dest: removeExisting_Ok)
next
  case (install_failed ps h2 rr)
  assume "x \<in> set (butlast (fst (tryBody E opts tmp f d touched h)))"
  then show ?thesis using install_failed
    by (auto simp: butlast_append dest: removeExisting_Ok)
next
  case (generated ps h2 h3)
  assume "x \<in> set (butlast (fst (tryBody E opts tmp f d touched h)))"
  moreover have "fst (runChangelogCommands E tmp f d touched h3) \<noteq> []"
    using runChangelogCommands_nonempty[OF generated(1), of E tmp f d h3] by auto
  ultimately show ?thesis using generated
    by (auto simp: butlast_append dest: removeExisting_Ok runChangelogCommands_butlast
          split: if_splits)
qed

lemma tryBody_Ok:
  "snd (tryBody E opts tmp f d touched h) = Ok () \<Longrightarrow>
     x \<in> set (fst (tryBody E opts tmp f d touched h)) \<Longrightarrow> \<not> failed x"
proof (cases rule: tryBody_cases[of E opts tmp f d touched h])
  case (paths_failed rr)
  assume "snd (tryBody E opts tmp f d touched h) = Ok ()"
  then show ?thesis using paths_failed by (cases rr) (simp_all add: raised_def)
next
  case (removal_failed ps h2)
  assume "snd (tryBody E opts tmp f d touched h) = Ok ()"
  then show ?thesis using removal_failed by simp
next
  case (none_touched ps h2)
  assume "snd (tryBody E opts tmp f d touched h) = Ok ()"
  then show ?thesis using none_touched by simp
next
  case (install_failed ps h2 rr)
  assume "snd (tryBody E opts tmp f d touched h) = Ok ()"
  then show ?thesis using install_failed by simp
next
  case (generated ps h2 h3)
  assume "snd (tryBody E opts tmp f d touched h) = Ok ()"
    and "x \<in> set (fst (tryBody E opts tmp f d touched h))"
  then show ?thesis using generated
    by (auto dest: removeExisting_Ok runChangelogCommands_Ok split: if_splits)
qed

lemma tryBody_failed_exec:
  assumes "ExecSync c dd rr \<in> set (fst (tryBody E opts tmp f d touched h))" and "rr \<noteq> Ok ()"
  shows "snd (tryBody E opts tmp f d touched h) = rr"
    and "fst (tryBody E opts tmp f d touched h)
           = butlast (fst (tryBody E opts tmp f d touched h)) @ [ExecSync c dd rr]"
proof -
  let ?T = "fst (tryBody E opts tmp f d touched h)"
  have ne: "?T \<noteq> []" using assms(1) by auto
  have "failed (ExecSync c dd rr)" using assms(2) by simp
  then have "ExecSync c dd rr \<notin> set (butlast ?T)"
    using tryBody_butlast[of "ExecSync c dd rr" E opts tmp f d touched h] by blast
  then have l: "last ?T = ExecSync c dd rr"
    using in_set_butlast_or_last[OF assms(1)] by simp
  then show "?T = butlast ?T @ [ExecSync c dd rr]"
    using ne append_butlast_last_id[of ?T] by simp
  show "snd (tryBody E opts tmp f d touched h) = rr"
  proof (cases rule: tryBody_cases[of E opts tmp f d touched h])
    case (paths_failed rr)
    then show ?thesis using l by simp
  next
    case (removal_failed ps h2)
    then show ?thesis using l removeExisting_last[of E tmp f ps h2] by auto
  next
    case (none_touched ps h2)
    then show ?thesis using l by simp
  next
    case (install_failed ps h2 rr)
    then show ?thesis using l by simp
  next
    case (generated ps h2 h3)
    have gne: "fst (runChangelogCommands E tmp f d touched h3) \<noteq> []"
      using runChangelogCommands_nonempty[OF generated(1), of E tmp f d h3] by auto
    then have lg: "last (fst (runChangelogCommands E tmp f d touched h3)) = ExecSync c dd rr"
      using l generated(2) by simp
    show ?thesis
    proof (cases "snd (runChangelogCommands E tmp f d touched h3) = Ok ()")
      case True
      then have "\<not> failed (last (fst (runChangelogCommands E tmp f d touched h3)))"
        using runChangelogCommands_Ok[of E tmp f d touched h3] gne last_in_set by blast
      then show ?thesis using lg assms(2) by simp
    next
      case False
      then show ?thesis using runChangelogCommands_last[of E tmp f d touched h3] lg generated(4)
        by auto
    qed
  qed
qed


lemma removalEvent_not_generation:
  "removalEvent t x \<Longrightarrow> \<not> isGeneration x" "removalEvent t x \<Longrightarrow> \<not> isInstall x"
  using removalEvent_kinds by blast+

lemma generationEvent_not_install: "generationEvent t x \<Longrightarrow> \<not> isInstall x"
  using generationEvent_kinds by blast

lemma removeExisting_not_generation:
  "x \<in> set (fst (removeExisting E tmp f ps h)) \<Longrightarrow> \<not> isGeneration x"
  "x \<in> set (fst (removeExisting E tmp f ps h)) \<Longrightarrow> \<not> isInstall x"
  by (blast dest: removeExisting_events removalEvent_not_generation)+

lemma runChangelogCommands_not_install:
  "x \<in> set (fst (runChangelogCommands E tmp f d ps h)) \<Longrightarrow> \<not> isInstall x"
  by (blast dest: runChangelogCommands_events generationEvent_not_install)

lemma removeExisting_no_generation:
  "filter isGeneration (fst (removeExisting E tmp f ps h)) = []"
  "filter isInstall (fst (removeExisting E tmp f ps h)) = []"
  by (simp_all add: filter_empty_conv removeExisting_not_generation)

lemma runChangelogCommands_no_install:
  "filter isInstall (fst (runChangelogCommands E tmp f d ps h)) = []"
  by (simp add: filter_empty_conv runChangelogCommands_not_install)

lemma removeExisting_takeWhile:
  "takeWhile (\<lambda>x. \<not> isGeneration x) (fst (removeExisting E tmp f ps h) @ ys)
     = fst (removeExisting E tmp f ps h) @ takeWhile (\<lambda>x. \<not> isGeneration x) ys"
  by (rule takeWhile_append2) (simp add: removeExisting_not_generation)

lemma install_not_generation [simp]: "\<not> isGenerationCmd ''pnpm install''"
  by (simp add: isGenerationCmd_def)

lemma tryBody_none_touched:
  assumes "touched = []"
  shows "\<forall>x\<in>set (fst (tryBody E opts tmp f d touched h)). \<not> isGeneration x \<and> \<not> isInstall x"
    and "\<forall>x\<in>set (fst (tryBody E opts tmp f d touched h)). \<not> failed x \<Longrightarrow>
           snd (tryBody E opts tmp f d touched h) = Exit 0 \<and>
           last (fst (tryBody E opts tmp f d touched h)) = Notice ''No projects require a changelog''"
proof -
  have R: "\<And>ps h2 x. x \<in> set (fst (removeExisting E tmp f ps h2)) \<Longrightarrow> \<not> isGeneration x \<and> \<not> isInstall x"
    by (simp add: removeExisting_not_generation)
  show "\<forall>x\<in>set (fst (tryBody E opts tmp f d touched h)). \<not> isGeneration x \<and> \<not> isInstall x"
  proof (cases rule: tryBody_cases[of E opts tmp f d touched h])
    case (paths_failed rr)
    then show ?thesis by simp
  next
    case (removal_failed ps h2)
    then show ?thesis using R by auto
  next
    case (none_touched ps h2)
    then show ?thesis using R by auto
  next
    case (install_failed ps h2 rr)
    then show ?thesis using assms by simp
  next
    case (generated ps h2 h3)
    then show ?thesis using assms by simp
  qed
  assume clean: "\<forall>x\<in>set (fst (tryBody E opts tmp f d touched h)). \<not> failed x"
  show "snd (tryBody E opts tmp f d touched h) = Exit 0 \<and>
           last (fst (tryBody E opts tmp f d touched h)) = Notice ''No projects require a changelog''"
  proof (cases rule: tryBody_cases[of E opts tmp f d touched h])
    case (paths_failed rr)
    then show ?thesis using clean by simp
  next
    case (removal_failed ps h2)
    then have "failed (last (fst (removeExisting E tmp f ps h2)))"
      "last (fst (removeExisting E tmp f ps h2)) \<in> set (fst (removeExisting E tmp f ps h2))"
      using removeExisting_last[of E tmp f ps h2] by auto
    then show ?thesis using clean removal_failed by auto
  next
    case (none_touched ps h2)
    then show ?thesis by simp
  next
    case (install_failed ps h2 rr)
    then show ?thesis using assms by simp
  next
    case (generated ps h2 h3)
    then show ?thesis using assms by simp
  qed
qed


lemma runChangelogCommands_exec_generation:
  "x \<in> set (fst (runChangelogCommands E tmp f d ps h)) \<Longrightarrow> isExec x \<Longrightarrow> isGeneration x"
  using runChangelogCommands_events[of x E tmp f d ps h] by (cases x) auto

lemma tryBody_generated:
  assumes "X \<in> set (fst (tryBody E opts tmp f d touched h))" and "isGeneration X"
  obtains ps h2 h3 where
    "touched \<noteq> []"
    "fst (tryBody E opts tmp f d touched h) =
       GetAllProjectPaths tmp (Ok ps)
       # Notice ''Removing existing changelog files in case a change is reverted and the entry is no longer needed''
       # fst (removeExisting E tmp f ps h2)
       @ (if truthy (devRepoPath opts) then []
          else [Notice (''Installing dependencies in '' @ tmp), ExecSync ''pnpm install'' tmp (Ok ())])
       @ fst (runChangelogCommands E tmp f d touched h3)"
    "snd (removeExisting E tmp f ps h2) = Ok ()"
    "snd (tryBody E opts tmp f d touched h) = snd (runChangelogCommands E tmp f d touched h3)"
    "takeWhile (\<lambda>x. \<not> isGeneration x) (fst (tryBody E opts tmp f d touched h)) =
       GetAllProjectPaths tmp (Ok ps)
       # Notice ''Removing existing changelog files in case a change is reverted and the entry is no longer needed''
       # fst (removeExisting E tmp f ps h2)
       @ (if truthy (devRepoPath opts) then []
          else [Notice (''Installing dependencies in '' @ tmp), ExecSync ''pnpm install'' tmp (Ok ())])
       @ takeWhile (\<lambda>x. \<not> isGeneration x) (fst (runChangelogCommands E tmp f d touched h3))"
proof (cases rule: tryBody_cases[of E opts tmp f d touched h])
  case (paths_failed rr)
  then show ?thesis using assms by auto
next
  case (removal_failed ps h2)
  then show ?thesis using assms by (auto dest: removeExisting_not_generation)
next
  case (none_touched ps h2)
  then show ?thesis using assms by (auto dest: removeExisting_not_generation)
next
  case (install_failed ps h2 rr)
  then show ?thesis using assms by (auto dest: removeExisting_not_generation)
next
  case (generated ps h2 h3)
  show ?thesis
  proof (rule that[where ps=ps and ?h2.0=h2 and ?h3.0=h3])
    show "touched \<noteq> []" by (rule generated(1))
    show "fst (tryBody E opts tmp f d touched h) =
       GetAllProjectPaths tmp (Ok ps)
       # Notice ''Removing existing changelog files in case a change is reverted and the entry is no longer needed''
       # fst (removeExisting E tmp f ps h2)
       @ (if truthy (devRepoPath opts) then []
          else [Notice (''Installing dependencies in '' @ tmp), ExecSync ''pnpm install'' tmp (Ok ())])
       @ fst (runChangelogCommands E tmp f d touched h3)" by (rule generated(2))
    show "snd (removeExisting E tmp f ps h2) = Ok ()" by (rule generated(3))
    show "snd (tryBody E opts tmp f d touched h) = snd (runChangelogCommands E tmp f d touched h3)"
      by (rule generated(4))
    show "takeWhile (\<lambda>x. \<not> isGeneration x) (fst (tryBody E opts tmp f d touched h)) =
       GetAllProjectPaths tmp (Ok ps)
       # Notice ''Removing existing changelog files in case a change is reverted and the entry is no longer needed''
       # fst (removeExisting E tmp f ps h2)
       @ (if truthy (devRepoPath opts) then []
          else [Notice (''Installing dependencies in '' @ tmp), ExecSync ''pnpm install'' tmp (Ok ())])
       @ takeWhile (\<lambda>x. \<not> isGeneration x) (fst (runChangelogCommands E tmp f d touched h3))"
      by (simp add: generated(2) removeExisting_takeWhile)
  qed
qed

lemma tryBody_installs:
  shows "length (filter isInstall (fst (tryBody E opts tmp f d touched h))) \<le> 1"
    and "truthy (devRepoPath opts) \<Longrightarrow> filter isInstall (fst (tryBody E opts tmp f d touched h)) = []"
    and "\<not> truthy (devRepoPath opts) \<Longrightarrow> touched \<noteq> [] \<Longrightarrow>
           GetAllProjectPaths tp (Ok ps) \<in> set (fst (tryBody E opts tmp f d touched h)) \<Longrightarrow>
           \<forall>x\<in>set (fst (tryBody E opts tmp f d touched h)). isRemoval x \<longrightarrow> \<not> failed x \<Longrightarrow>
           length (filter isInstall (fst (tryBody E opts tmp f d touched h))) = 1"
proof -
  show "length (filter isInstall (fst (tryBody E opts tmp f d touched h))) \<le> 1"
    by (cases rule: tryBody_cases[of E opts tmp f d touched h])
       (simp_all add: removeExisting_no_generation runChangelogCommands_no_install)
  show "truthy (devRepoPath opts) \<Longrightarrow> filter isInstall (fst (tryBody E opts tmp f d touched h)) = []"
    by (cases rule: tryBody_cases[of E opts tmp f d touched h])
       (simp_all add: removeExisting_no_generation runChangelogCommands_no_install)
  assume a: "\<not> truthy (devRepoPath opts)" "touched \<noteq> []"
    "GetAllProjectPaths tp (Ok ps) \<in> set (fst (tryBody E opts tmp f d touched h))"
    "\<forall>x\<in>set (fst (tryBody E opts tmp f d touched h)). isRemoval x \<longrightarrow> \<not> failed x"
  show "length (filter isInstall (fst (tryBody E opts tmp f d touched h))) = 1"
  proof (cases rule: tryBody_cases[of E opts tmp f d touched h])
    case (paths_failed rr)
    then show ?thesis using a(3) by auto
  next
    case (removal_failed ps' h2)
    let ?R = "fst (removeExisting E tmp f ps' h2)"
    have l: "?R \<noteq> []" "failed (last ?R)" "isExec (last ?R)"
      using removeExisting_last[of E tmp f ps' h2] removal_failed(2) by auto
    then have "removalEvent tmp (last ?R)"
      using removeExisting_events[of "last ?R" E tmp f ps' h2] by simp
    then have "isRemoval (last ?R)" using l(3) by (cases "last ?R") auto
    moreover have "last ?R \<in> set (fst (tryBody E opts tmp f d touched h))"
      using removal_failed(1) l(1) by simp
    ultimately show ?thesis using a(4) l(2) by blast
  next
    case (none_touched ps' h2)
    then show ?thesis using a(2) by simp
  next
    case (install_failed ps' h2 rr)
    then show ?thesis by (simp add: removeExisting_no_generation)
  next
    case (generated ps' h2 h3)
    then show ?thesis using a(1)
      by (simp add: removeExisting_no_generation runChangelogCommands_no_install)
  qed
qed

lemma tryBody_commands:
  "prefix (commands (filter isGeneration (fst (tryBody E opts tmp f d touched h))))
          (map (\<lambda>p. changelogCmd p f d) touched)"
proof (cases rule: tryBody_cases[of E opts tmp f d touched h])
  case (paths_failed rr)
  then show ?thesis by simp
next
  case (removal_failed ps h2)
  then show ?thesis by (simp add: removeExisting_no_generation)
next
  case (none_touched ps h2)
  then show ?thesis by (simp add: removeExisting_no_generation)
next
  case (install_failed ps h2 rr)
  then show ?thesis by (simp add: removeExisting_no_generation)
next
  case (generated ps h2 h3)
  have "commands (filter isGeneration (fst (runChangelogCommands E tmp f d touched h3)))
          = commands (fst (runChangelogCommands E tmp f d touched h3))"
    by (rule commands_filter_generation) (simp add: runChangelogCommands_exec_generation)
  then show ?thesis using generated(2) runChangelogCommands_commands_prefix[of E tmp f d touched h3]
    by (simp add: removeExisting_no_generation)
qed

lemma not_in_try:
  "\<not> tryEvent x \<Longrightarrow> x \<notin> set (fst (tryBody E opts tmp f d touched h))"
  by (blast dest: tryBody_events)


lemma tryBody_generation_exit:
  assumes "X \<in> set (fst (tryBody E opts tmp f d touched h))" and "isGeneration X"
    and "snd (tryBody E opts tmp f d touched h) = Exit k"
  shows "\<exists>c. ExecSync c tmp (Exit k) \<in> set (fst (tryBody E opts tmp f d touched h))"
proof (cases rule: tryBody_generated[OF assms(1,2)])
  case (1 ps h2 h3)
  let ?Gn = "fst (runChangelogCommands E tmp f d touched h3)"
  have "snd (runChangelogCommands E tmp f d touched h3) = Exit k" using 1(4) assms(3) by simp
  then have "?Gn \<noteq> []" "\<exists>c. last ?Gn = ExecSync c tmp (Exit k)"
    using runChangelogCommands_last[of E tmp f d touched h3] by auto
  then obtain c where "ExecSync c tmp (Exit k) \<in> set ?Gn" using last_in_set by metis
  then show ?thesis using 1(2) by auto
qed

lemma tryBody_commands_all:
  assumes "X \<in> set (fst (tryBody E opts tmp f d touched h))" and "isGeneration X"
    and "\<forall>x\<in>set (fst (tryBody E opts tmp f d touched h)). isGeneration x \<longrightarrow> \<not> failed x"
  shows "commands (filter isGeneration (fst (tryBody E opts tmp f d touched h)))
           = map (\<lambda>p. changelogCmd p f d) touched"
proof (cases rule: tryBody_generated[OF assms(1,2)])
  case (1 ps h2 h3)
  let ?Gn = "fst (runChangelogCommands E tmp f d touched h3)"
  have ok: "snd (runChangelogCommands E tmp f d touched h3) = Ok ()"
  proof (rule ccontr)
    assume n: "snd (runChangelogCommands E tmp f d touched h3) \<noteq> Ok ()"
    from runChangelogCommands_last[OF n] obtain c where
      l: "?Gn \<noteq> []" "last ?Gn = ExecSync c tmp (snd (runChangelogCommands E tmp f d touched h3))"
      by blast
    from l(1) have in_Gn: "last ?Gn \<in> set ?Gn" by (rule last_in_set)
    have "isGeneration (last ?Gn)"
      by (rule runChangelogCommands_exec_generation[OF in_Gn]) (simp add: l(2))
    moreover have "failed (last ?Gn)" using l(2) n by simp
    moreover have "last ?Gn \<in> set (fst (tryBody E opts tmp f d touched h))"
      using in_Gn 1(2) by simp
    ultimately show False using assms(3) by blast
  qed
  have "commands (filter isGeneration ?Gn) = commands ?Gn"
    by (rule commands_filter_generation) (simp add: runChangelogCommands_exec_generation)
  then show ?thesis
    using 1(2) runChangelogCommands_commands_Ok[OF ok]
    by (simp add: removeExisting_no_generation)
qed

section \<open>The commit step\<close>

lemma commitAndPush_events:
  "x \<in> set (fst (commitAndPush E tmp br h)) \<longrightarrow> commitEvent x"
  by (cases "isGithubCI E") (simp_all add: commitAndPush_def Let_def split: result.split)

lemma commitAndPush_raw:
  "GitRaw g args rr \<in> set (fst (commitAndPush E tmp br h)) \<longrightarrow>
     g = \<lparr>baseDir = tmp, config = [''core.hooksPath=/dev/null'']\<rparr> \<and>
     (args = [''status'', ''--short''] \<or>
      isGithubCI E \<and> (args = [''config'', ''--global'', ''user.email'', ''github-actions@github.com'']
                     \<or> args = [''config'', ''--global'', ''user.name'', ''github-actions'']))"
  by (cases "isGithubCI E") (simp_all add: commitAndPush_def Let_def split: result.split)


lemma commitAndPush_first:
  "\<exists>g a rr C. fst (commitAndPush E tmp br h) = GitRaw g a rr # C"
  by (cases "isGithubCI E") (simp_all add: commitAndPush_def Let_def split: result.split)

lemma commitAndPush_exitCode:
  "(\<forall>x\<in>set (fst (commitAndPush E tmp br h)). \<not> failed x) \<longrightarrow>
     exitCode (snd (commitAndPush E tmp br h)) = 0"
  by (cases "isGithubCI E") (simp_all add: commitAndPush_def Let_def exitCode_def split: result.split)

lemma commitAndPush_identity:
  "isGithubCI E \<longrightarrow> GitRaw g [''status'', ''--short''] rr \<in> set (fst (commitAndPush E tmp br h)) \<longrightarrow>
     (\<exists>v. GitRaw g [''config'', ''--global'', ''user.email'', ''github-actions@github.com''] (Ok v)
        \<in> set (fst (commitAndPush E tmp br h))) \<and>
     (\<exists>v. GitRaw g [''config'', ''--global'', ''user.name'', ''github-actions''] (Ok v)
        \<in> set (fst (commitAndPush E tmp br h)))"
  by (cases "isGithubCI E") (simp_all add: commitAndPush_def Let_def split: result.split)



section \<open>After the touched projects are known\<close>

lemma generateAndCommit_cases [case_names exited completed logger_failed caught]:
  obtains
    k where "snd (tryBody E opts tmp f d touched h) = Exit k"
      "generateAndCommit E opts tmp br f d touched h = tryBody E opts tmp f d touched h"
  | hc where "snd (tryBody E opts tmp f d touched h) = Ok ()"
      "fst (generateAndCommit E opts tmp br f d touched h) =
         fst (tryBody E opts tmp f d touched h)
         @ Notice (''Changelogs created for '' @ join '', '' touched)
         # fst (commitAndPush E tmp br hc)"
      "snd (generateAndCommit E opts tmp br f d touched h) = snd (commitAndPush E tmp br hc)"
  | e rl where "snd (tryBody E opts tmp f d touched h) = Throw e" "rl \<noteq> Ok ()"
      "fst (generateAndCommit E opts tmp br f d touched h) =
         fst (tryBody E opts tmp f d touched h) @ [LoggerError e rl]"
      "snd (generateAndCommit E opts tmp br f d touched h) = rl"
  | e hc where "snd (tryBody E opts tmp f d touched h) = Throw e"
      "fst (generateAndCommit E opts tmp br f d touched h) =
         fst (tryBody E opts tmp f d touched h)
         @ LoggerError e (Ok ())
         # Notice (''Changelogs created for '' @ join '', '' touched)
         # fst (commitAndPush E tmp br hc)"
      "snd (generateAndCommit E opts tmp br f d touched h) = snd (commitAndPush E tmp br hc)"
proof -
  let ?T = "tryBody E opts tmp f d touched h"
  let ?N = "Notice (''Changelogs created for '' @ join '', '' touched)"
  have tc: "try_catch (tryBody E opts tmp f d touched) hdl h =
     (case snd ?T of Throw e \<Rightarrow> prepend (fst ?T) (hdl e (h @ fst ?T)) | _ \<Rightarrow> ?T)" for hdl
    by (simp add: try_catch_def prepend_def split: prod.splits result.splits)
  show thesis
  proof (cases "snd ?T")
    case (Exit k)
    then show thesis
      by (intro that(1)[where k=k])
         (simp_all add: generateAndCommit_def seq_def bind_prepend tc prod_eq_iff)
  next
    case (Ok u)
    then show thesis
      by (intro that(2)[where hc="h @ fst ?T @ [?N]"])
         (simp_all add: generateAndCommit_def seq_def bind_prepend tc)
  next
    case (Throw e)
    show thesis
    proof (cases "loggerError E (h @ fst ?T) e = Ok ()")
      case True
      then show thesis using Throw
        by (intro that(4)[where e=e and hc="h @ fst ?T @ [LoggerError e (Ok ()), ?N]"])
           (simp_all add: generateAndCommit_def seq_def bind_prepend tc)
    next
      case False
      then show thesis using Throw
        by (intro that(3)[where e=e and rl="loggerError E (h @ fst ?T) e"])
           (auto simp add: generateAndCommit_def seq_def bind_prepend tc split: result.splits)
    qed
  qed
qed

lemma tryEvent_lateEvent: "tryEvent x \<Longrightarrow> lateEvent x"
  by (cases x) simp_all

lemma commitEvent_lateEvent: "commitEvent x \<Longrightarrow> lateEvent x"
  by (cases x) simp_all

lemma generateAndCommit_events:
  "x \<in> set (fst (generateAndCommit E opts tmp br f d touched h)) \<Longrightarrow> lateEvent x"
proof (cases rule: generateAndCommit_cases[of E opts tmp f d touched h br])
  case (exited k)
  assume "x \<in> set (fst (generateAndCommit E opts tmp br f d touched h))"
  then show ?thesis using exited by (auto dest: tryBody_events tryEvent_lateEvent)
next
  case (completed hc)
  assume "x \<in> set (fst (generateAndCommit E opts tmp br f d touched h))"
  then show ?thesis using completed commitAndPush_events[of x E tmp br hc]
    by (auto dest: tryBody_events tryEvent_lateEvent commitEvent_lateEvent)
next
  case (logger_failed e rl)
  assume "x \<in> set (fst (generateAndCommit E opts tmp br f d touched h))"
  then show ?thesis using logger_failed by (auto dest: tryBody_events tryEvent_lateEvent)
next
  case (caught e hc)
  assume "x \<in> set (fst (generateAndCommit E opts tmp br f d touched h))"
  then show ?thesis using caught commitAndPush_events[of x E tmp br hc]
    by (auto dest: tryBody_events tryEvent_lateEvent commitEvent_lateEvent)
qed

lemma generateAndCommit_tail:
  obtains rest where
    "fst (generateAndCommit E opts tmp br f d touched h) = fst (tryBody E opts tmp f d touched h) @ rest"
    "\<forall>y\<in>set rest. afterEvent y"
    "\<forall>y\<in>set rest. isCreatedNotice y \<longrightarrow> y = Notice (''Changelogs created for '' @ join '', '' touched)"
proof (cases rule: generateAndCommit_cases[of E opts tmp f d touched h br])
  case (exited k)
  then show ?thesis by (intro that[of "[]"]) simp_all
next
  case (completed hc)
  then show ?thesis
    by (intro that[of "Notice (''Changelogs created for '' @ join '', '' touched) # fst (commitAndPush E tmp br hc)"])
       (auto dest: commitAndPush_events[rule_format] commitEvent_afterEvent commitEvent_kinds)
next
  case (logger_failed e rl)
  then show ?thesis by (intro that[of "[LoggerError e rl]"]) simp_all
next
  case (caught e hc)
  then show ?thesis
    by (intro that[of "LoggerError e (Ok ()) # Notice (''Changelogs created for '' @ join '', '' touched) # fst (commitAndPush E tmp br hc)"])
       (auto dest: commitAndPush_events[rule_format] commitEvent_afterEvent commitEvent_kinds)
qed


lemma generateAndCommit_raw:
  assumes "GitRaw g args rr \<in> set (fst (generateAndCommit E opts tmp br f d touched h))"
  shows "\<exists>hc. GitRaw g args rr \<in> set (fst (commitAndPush E tmp br hc))
           \<and> set (fst (commitAndPush E tmp br hc))
                 \<subseteq> set (fst (generateAndCommit E opts tmp br f d touched h))"
proof -
  have "tryEvent (GitRaw g args rr) = False" by simp
  then have notT: "GitRaw g args rr \<notin> set (fst (tryBody E opts tmp f d touched h))"
    using tryBody_events[of "GitRaw g args rr" E opts tmp f d touched h] by blast
  show ?thesis
  proof (cases rule: generateAndCommit_cases[of E opts tmp f d touched h br])
    case (exited k)
    then show ?thesis using assms notT by simp
  next
    case (completed hc)
    then show ?thesis using assms notT by (intro exI[of _ hc]) auto
  next
    case (logger_failed e rl)
    then show ?thesis using assms notT by simp
  next
    case (caught e hc)
    then show ?thesis using assms notT by (intro exI[of _ hc]) auto
  qed
qed

lemma generateAndCommit_none_touched:
  assumes "touched = []"
  shows "\<forall>x\<in>set (fst (generateAndCommit E opts tmp br f d touched h)).
           \<not> isGeneration x \<and> \<not> isInstall x"
    and "\<forall>x\<in>set (fst (generateAndCommit E opts tmp br f d touched h)). \<not> failed x \<Longrightarrow>
           snd (generateAndCommit E opts tmp br f d touched h) = Exit 0 \<and>
           (\<forall>x\<in>set (fst (generateAndCommit E opts tmp br f d touched h)). \<not> isGit x) \<and>
           last (fst (generateAndCommit E opts tmp br f d touched h))
             = Notice ''No projects require a changelog''"
proof -
  let ?G = "fst (generateAndCommit E opts tmp br f d touched h)"
  let ?T = "fst (tryBody E opts tmp f d touched h)"
  obtain rest where rest: "?G = ?T @ rest" "\<forall>y\<in>set rest. afterEvent y"
    by (rule generateAndCommit_tail[of E opts tmp br f d touched h]) blast
  show "\<forall>x\<in>set ?G. \<not> isGeneration x \<and> \<not> isInstall x"
    using rest tryBody_none_touched(1)[OF assms, of E opts tmp f d h] afterEvent_kinds by auto
  assume clean: "\<forall>x\<in>set ?G. \<not> failed x"
  then have "\<forall>x\<in>set ?T. \<not> failed x" using rest(1) by simp
  from tryBody_none_touched(2)[OF assms this]
  have T: "snd (tryBody E opts tmp f d touched h) = Exit 0"
    "last ?T = Notice ''No projects require a changelog''" by simp_all
  have "generateAndCommit E opts tmp br f d touched h = tryBody E opts tmp f d touched h"
    by (cases rule: generateAndCommit_cases[of E opts tmp f d touched h br]) (simp_all add: T(1))
  then show "snd (generateAndCommit E opts tmp br f d touched h) = Exit 0 \<and>
           (\<forall>x\<in>set ?G. \<not> isGit x) \<and> last ?G = Notice ''No projects require a changelog''"
    using T tryBody_events[of _ E opts tmp f d touched h] tryEvent_kinds by auto
qed



section \<open>The whole run\<close>

lemma changefile_cases [case_names fetch_failed not_requested details_failed clone_failed checkout_failed touched_failed reached]:
  obtains
    rr where "\<forall>v. rr \<noteq> Ok v"
      "fst (changefile E n opts h) = [StartTask (''Getting pull request data for PR number '' @ n), GetPullRequestData (owner opts) (name opts) n rr]"
      "snd (changefile E n opts h) \<noteq> Ok ()"
  | pr where "\<not> shouldAutomateChangelog E (prBody pr)"
      \<open>changefile E n opts h =
         ([StartTask (''Getting pull request data for PR number '' @ n), GetPullRequestData (owner opts) (name opts) n (Ok pr), EndTask,
           Notice (''PR #'' @ n @ '' does not have the "Automatically create a changelog entry from the details" checkbox checked. No changelog will be created.'')], Exit 0)\<close>
  | pr where "shouldAutomateChangelog E (prBody pr)"
      "\<forall>v. getChangelogDetails E (prBody pr) \<noteq> Ok v"
      "fst (changefile E n opts h) =
         [StartTask (''Getting pull request data for PR number '' @ n), GetPullRequestData (owner opts) (name opts) n (Ok pr), EndTask]"
      "(\<exists>e. getChangelogDetails E (prBody pr) = Throw e \<and> snd (changefile E n opts h) = Throw e) \<or>
       (\<exists>k. getChangelogDetails E (prBody pr) = Exit k \<and> snd (changefile E n opts h) = Exit k)"
  | pr details rr where "\<forall>v. rr \<noteq> Ok v" "shouldAutomateChangelog E (prBody pr)"
      "getChangelogDetails E (prBody pr) = Ok details" "\<not> truthy (devRepoPath opts)"
      "fst (changefile E n opts h) =
         [StartTask (''Getting pull request data for PR number '' @ n), GetPullRequestData (owner opts) (name opts) n (Ok pr), EndTask,
          StartTask (''Making a temporary clone of '' @ [CHR 0x27] @ headOwner pr @ ''/'' @ name opts @ [CHR 0x27]), CloneAuthenticatedRepo (headOwner pr) (name opts) False rr]"
      "snd (changefile E n opts h) \<noteq> Ok ()"
  | pr details P tmp rr where "rr \<noteq> Ok ()" "shouldAutomateChangelog E (prBody pr)"
      "getChangelogDetails E (prBody pr) = Ok details"
      "P = [StartTask (''Getting pull request data for PR number '' @ n), GetPullRequestData (owner opts) (name opts) n (Ok pr), EndTask, StartTask (''Making a temporary clone of '' @ [CHR 0x27] @ headOwner pr @ ''/'' @ name opts @ [CHR 0x27])]
          @ (if truthy (devRepoPath opts) then []
             else [CloneAuthenticatedRepo (headOwner pr) (name opts) False (Ok tmp)])"
      "fst (changefile E n opts h) = P @ [EndTask, Notice (''Temporary clone of '' @ [CHR 0x27] @ headOwner pr @ ''/'' @ name opts @ [CHR 0x27] @ '' created at '' @ tmp), Notice (''Checking out remote branch '' @ branch pr), CheckoutRemoteBranch tmp (branch pr) rr]"
      "snd (changefile E n opts h) \<noteq> Ok ()"
  | pr details P tmp rr where "\<forall>v. rr \<noteq> Ok v" "shouldAutomateChangelog E (prBody pr)"
      "getChangelogDetails E (prBody pr) = Ok details"
      "P = [StartTask (''Getting pull request data for PR number '' @ n), GetPullRequestData (owner opts) (name opts) n (Ok pr), EndTask, StartTask (''Making a temporary clone of '' @ [CHR 0x27] @ headOwner pr @ ''/'' @ name opts @ [CHR 0x27])]
          @ (if truthy (devRepoPath opts) then []
             else [CloneAuthenticatedRepo (headOwner pr) (name opts) False (Ok tmp)])"
      "fst (changefile E n opts h) = P @ [EndTask, Notice (''Temporary clone of '' @ [CHR 0x27] @ headOwner pr @ ''/'' @ name opts @ [CHR 0x27] @ '' created at '' @ tmp), Notice (''Checking out remote branch '' @ branch pr), CheckoutRemoteBranch tmp (branch pr) (Ok ()), Notice ''Getting all touched projects requiring a changelog'',
          GetTouchedProjectsRequiringChangelog tmp (base pr) (head pr) (fileName pr) (owner opts) (name opts) rr]"
      "snd (changefile E n opts h) \<noteq> Ok ()"
  | pr details tmp touched P where
      "shouldAutomateChangelog E (prBody pr)"
      "getChangelogDetails E (prBody pr) = Ok details"
      "truthy (devRepoPath opts) \<Longrightarrow> devRepoPath opts = Some tmp"
      "P = [StartTask (''Getting pull request data for PR number '' @ n), GetPullRequestData (owner opts) (name opts) n (Ok pr), EndTask, StartTask (''Making a temporary clone of '' @ [CHR 0x27] @ headOwner pr @ ''/'' @ name opts @ [CHR 0x27])]
          @ (if truthy (devRepoPath opts) then []
             else [CloneAuthenticatedRepo (headOwner pr) (name opts) False (Ok tmp)])
          @ [EndTask, Notice (''Temporary clone of '' @ [CHR 0x27] @ headOwner pr @ ''/'' @ name opts @ [CHR 0x27] @ '' created at '' @ tmp), Notice (''Checking out remote branch '' @ branch pr), CheckoutRemoteBranch tmp (branch pr) (Ok ()), Notice ''Getting all touched projects requiring a changelog'',
             GetTouchedProjectsRequiringChangelog tmp (base pr) (head pr) (fileName pr)
               (owner opts) (name opts) (Ok touched)]"
      "changefile E n opts h =
         prepend P (generateAndCommit E opts tmp (branch pr) (fileName pr) details touched (h @ P))"
proof -
  let ?s1 = "''Getting pull request data for PR number '' @ n"
  let ?GP = "GetPullRequestData (owner opts) (name opts) n"
  let ?h1 = "h @ [StartTask ?s1]"
  show thesis
  proof (cases "getPullRequestData E ?h1 (owner opts) (name opts) n")
    case (Throw e)
    then have "fst (changefile E n opts h) = [StartTask ?s1, ?GP (Throw e)]"
      "snd (changefile E n opts h) = Throw e"
      by (simp_all add: changefile_def)
    then show thesis by (intro that(1)[where rr="Throw e"]) simp_all
  next
    case (Exit k)
    then have "fst (changefile E n opts h) = [StartTask ?s1, ?GP (Exit k)]"
      "snd (changefile E n opts h) = Exit k"
      by (simp_all add: changefile_def)
    then show thesis by (intro that(1)[where rr="Exit k"]) simp_all
  next
    case pr: (Ok pr)
    let ?s2 = "''Making a temporary clone of '' @ [CHR 0x27] @ headOwner pr @ ''/'' @ name opts @ [CHR 0x27]"
    let ?P2 = "[StartTask ?s1, ?GP (Ok pr), EndTask, StartTask ?s2]"
    show thesis
    proof (cases "shouldAutomateChangelog E (prBody pr)")
      case False
      then show thesis using pr by (intro that(2)[where pr=pr]) (simp_all add: changefile_def)
    next
      case auto: True
      show thesis
      proof (cases "getChangelogDetails E (prBody pr)")
        case (Throw e)
        then show thesis using pr auto by (intro that(3)[where pr=pr]) (simp_all add: changefile_def)
      next
        case (Exit k)
        then show thesis using pr auto by (intro that(3)[where pr=pr]) (simp_all add: changefile_def)
      next
        case det: (Ok details)
        have "\<exists>tmp. (truthy (devRepoPath opts) \<longrightarrow> devRepoPath opts = Some tmp) \<and>
            (\<not> truthy (devRepoPath opts) \<longrightarrow>
               cloneAuthenticatedRepo E (h @ ?P2) (headOwner pr) (name opts) False = Ok tmp)
          \<or> \<not> truthy (devRepoPath opts) \<and>
              (\<forall>v. cloneAuthenticatedRepo E (h @ ?P2) (headOwner pr) (name opts) False \<noteq> Ok v)"
          by (cases "cloneAuthenticatedRepo E (h @ ?P2) (headOwner pr) (name opts) False")
             (auto simp: truthy_def split: option.splits)
        then consider
          (noclone) "\<not> truthy (devRepoPath opts)"
            "\<forall>v. cloneAuthenticatedRepo E (h @ ?P2) (headOwner pr) (name opts) False \<noteq> Ok v"
          | (tmp) tmp where "truthy (devRepoPath opts) \<Longrightarrow> devRepoPath opts = Some tmp"
            "\<not> truthy (devRepoPath opts) \<Longrightarrow>
               cloneAuthenticatedRepo E (h @ ?P2) (headOwner pr) (name opts) False = Ok tmp"
          by blast
        then show thesis
        proof cases
          case noclone
          then show thesis using pr auto det
            by (intro that(4)[where pr=pr and details=details and rr="cloneAuthenticatedRepo E (h @ ?P2) (headOwner pr) (name opts) False"])
               (auto simp add: changefile_def split: result.splits)
        next
          case tmp
          let ?P3 = "?P2 @ (if truthy (devRepoPath opts) then []
             else [CloneAuthenticatedRepo (headOwner pr) (name opts) False (Ok tmp)])"
          let ?s3 = "''Temporary clone of '' @ [CHR 0x27] @ headOwner pr @ ''/''
                 @ name opts @ [CHR 0x27] @ '' created at '' @ tmp"
          let ?s4 = "''Checking out remote branch '' @ branch pr"
          let ?P4 = "?P3 @ [EndTask, Notice ?s3, Notice ?s4]"
          let ?s5 = "''Getting all touched projects requiring a changelog''"
          let ?GT = "GetTouchedProjectsRequiringChangelog tmp (base pr) (head pr) (fileName pr) (owner opts) (name opts)"
          show thesis
          proof (cases "checkoutRemoteBranch E (h @ ?P4) tmp (branch pr)")
            case (Throw e)
            then show thesis using pr auto det tmp
              by (cases "truthy (devRepoPath opts)"; intro that(5)[where pr=pr and details=details and tmp=tmp and rr="Throw e" and P="?P3"]; simp add: changefile_def)
          next
            case (Exit k)
            then show thesis using pr auto det tmp
              by (cases "truthy (devRepoPath opts)"; intro that(5)[where pr=pr and details=details and tmp=tmp and rr="Exit k" and P="?P3"]; simp add: changefile_def)
          next
            case co: (Ok u)
            let ?P5 = "?P4 @ [CheckoutRemoteBranch tmp (branch pr) (Ok ()), Notice ?s5]"
            show thesis
            proof (cases "getTouchedProjectsRequiringChangelog E (h @ ?P5) tmp (base pr) (head pr) (fileName pr) (owner opts) (name opts)")
              case (Throw e)
              then show thesis using pr auto det tmp co
                by (cases "truthy (devRepoPath opts)"; intro that(6)[where pr=pr and details=details and tmp=tmp and rr="Throw e" and P="?P3"]; simp add: changefile_def)
            next
              case (Exit k)
              then show thesis using pr auto det tmp co
                by (cases "truthy (devRepoPath opts)"; intro that(6)[where pr=pr and details=details and tmp=tmp and rr="Exit k" and P="?P3"]; simp add: changefile_def)
            next
              case (Ok touched)
              then show thesis using pr auto det tmp co
                by (intro that(7)[where pr=pr and tmp=tmp and details=details and touched=touched and P="?P5 @ [?GT (Ok touched)]"])
                   (auto simp add: changefile_def split: result.splits)
            qed
          qed
        qed
      qed
    qed
  qed
qed

lemma changefile_reached:
  assumes "x \<in> set (fst (changefile E n opts h))" and "reachedEvent x"
  obtains pr d tmp touched P where
    "shouldAutomateChangelog E (prBody pr)"
    "getChangelogDetails E (prBody pr) = Ok d"
    "truthy (devRepoPath opts) \<Longrightarrow> devRepoPath opts = Some tmp"
    "\<forall>y\<in>set P. preludeEvent y"
    "\<forall>y\<in>set P. isClone y \<longrightarrow> \<not> truthy (devRepoPath opts)"
    "\<forall>ow nm k rr. GetPullRequestData ow nm k rr \<in> set P \<longrightarrow> rr = Ok pr"
    "\<forall>tp b hc f ow nm rr. GetTouchedProjectsRequiringChangelog tp b hc f ow nm rr \<in> set P
        \<longrightarrow> rr = Ok touched \<and> tp = tmp \<and> f = fileName pr"
    "GetPullRequestData (owner opts) (name opts) n (Ok pr) \<in> set P"
    "fst (changefile E n opts h) =
       P @ fst (generateAndCommit E opts tmp (branch pr) (fileName pr) d touched (h @ P))"
    "snd (changefile E n opts h) =
       snd (generateAndCommit E opts tmp (branch pr) (fileName pr) d touched (h @ P))"
proof (cases rule: changefile_cases[of E n opts h])
  case (fetch_failed rr)
  then show ?thesis using assms by auto
next
  case (not_requested pr')
  then show ?thesis using assms by auto
next
  case (details_failed pr')
  then show ?thesis using assms by auto
next
  case (clone_failed pr' details rr)
  then show ?thesis using assms by auto
next
  case (checkout_failed pr' details P tmp rr)
  then show ?thesis using assms by (auto split: if_splits)
next
  case (touched_failed pr' details P tmp rr)
  then show ?thesis using assms by (auto split: if_splits)
next
  case (reached pr details tmp touched P)
  show ?thesis
  proof (rule that[where pr=pr and d=details and tmp=tmp and touched=touched and P=P])
    show "shouldAutomateChangelog E (prBody pr)" by (rule reached(1))
    show "getChangelogDetails E (prBody pr) = Ok details" by (rule reached(2))
    show "truthy (devRepoPath opts) \<Longrightarrow> devRepoPath opts = Some tmp" by (rule reached(3))
    show "\<forall>y\<in>set P. preludeEvent y" using reached(4) by simp
    show "\<forall>y\<in>set P. isClone y \<longrightarrow> \<not> truthy (devRepoPath opts)" using reached(4) by simp
    show "\<forall>ow nm k rr. GetPullRequestData ow nm k rr \<in> set P \<longrightarrow> rr = Ok pr"
      using reached(4) by simp
    show "\<forall>tp b hc f ow nm rr. GetTouchedProjectsRequiringChangelog tp b hc f ow nm rr \<in> set P
        \<longrightarrow> rr = Ok touched \<and> tp = tmp \<and> f = fileName pr"
      using reached(4) by simp
    show "GetPullRequestData (owner opts) (name opts) n (Ok pr) \<in> set P"
      using reached(4) by simp
    show "fst (changefile E n opts h) =
       P @ fst (generateAndCommit E opts tmp (branch pr) (fileName pr) details touched (h @ P))"
      using reached(5) by simp
    show "snd (changefile E n opts h) =
       snd (generateAndCommit E opts tmp (branch pr) (fileName pr) details touched (h @ P))"
      using reached(5) by simp
  qed
qed

text \<open>The events of a run that got as far as the try block, in three parts.\<close>

lemma changefile_parts:
  assumes "x \<in> set (fst (changefile E n opts h))" and "reachedEvent x"
  obtains pr d tmp touched P rest where
    "getChangelogDetails E (prBody pr) = Ok d"
    "\<forall>y\<in>set P. preludeEvent y"
    "\<forall>ow nm k rr. GetPullRequestData ow nm k rr \<in> set P \<longrightarrow> rr = Ok pr"
    "\<forall>tp b hc f ow nm rr. GetTouchedProjectsRequiringChangelog tp b hc f ow nm rr \<in> set P
        \<longrightarrow> rr = Ok touched \<and> tp = tmp \<and> f = fileName pr"
    "fst (changefile E n opts h) =
       P @ fst (tryBody E opts tmp (fileName pr) d touched (h @ P)) @ rest"
    "\<forall>y\<in>set rest. afterEvent y"
    "\<forall>y\<in>set rest. isCreatedNotice y \<longrightarrow> y = Notice (''Changelogs created for '' @ join '', '' touched)"
    "fst (generateAndCommit E opts tmp (branch pr) (fileName pr) d touched (h @ P))
       = fst (tryBody E opts tmp (fileName pr) d touched (h @ P)) @ rest"
proof (cases rule: changefile_reached[OF assms])
  case (1 pr d tmp touched P)
  show ?thesis
  proof (cases rule: generateAndCommit_tail[of E opts tmp "branch pr" "fileName pr" d touched "h @ P"])
    case (1 rest)
    show ?thesis
      using \<open>getChangelogDetails E (prBody pr) = Ok d\<close> \<open>\<forall>y\<in>set P. preludeEvent y\<close>
        \<open>\<forall>ow nm k rr. GetPullRequestData ow nm k rr \<in> set P \<longrightarrow> rr = Ok pr\<close>
        \<open>\<forall>tp b hc f ow nm rr. GetTouchedProjectsRequiringChangelog tp b hc f ow nm rr \<in> set P
        \<longrightarrow> rr = Ok touched \<and> tp = tmp \<and> f = fileName pr\<close>
        \<open>fst (changefile E n opts h) =
       P @ fst (generateAndCommit E opts tmp (branch pr) (fileName pr) d touched (h @ P))\<close> 1
      by (intro that[where pr=pr and d=d and tmp=tmp and touched=touched and P=P and rest=rest]) simp_all
  qed
qed


lemma changefile_clone:
  assumes "x \<in> set (fst (changefile E n opts h))" and "isClone x"
  shows "\<not> truthy (devRepoPath opts)"
proof (cases rule: changefile_cases[of E n opts h])
  case (fetch_failed rr)
  then show ?thesis using assms by auto
next
  case (not_requested pr')
  then show ?thesis using assms by auto
next
  case (details_failed pr')
  then show ?thesis using assms by auto
next
  case (clone_failed pr' details rr)
  then show ?thesis by simp
next
  case (checkout_failed pr' details P tmp rr)
  then show ?thesis using assms by (auto split: if_splits)
next
  case (touched_failed pr' details P tmp rr)
  then show ?thesis using assms by (auto split: if_splits)
next
  case (reached pr' details tmp touched P)
  have "x \<notin> set (fst (generateAndCommit E opts tmp (branch pr') (fileName pr') details touched (h @ P)))"
    using generateAndCommit_events[of x E opts tmp "branch pr'" "fileName pr'" details touched "h @ P"]
      lateEvent_kinds[of x] assms(2) by blast
  then show ?thesis using assms reached by (auto split: if_splits)
qed


section \<open>Evaluating the example runs\<close>

lemma seq_try_catch:
  "seq (try_catch m hdl) k h =
     (case m h of
        (es, Ok v) \<Rightarrow> prepend es (k (h @ es))
      | (es, Exit n) \<Rightarrow> (es, Exit n)
      | (es, Throw e) \<Rightarrow>
          (case hdl e (h @ es) of
             (es', Ok v) \<Rightarrow> prepend (es @ es') (k (h @ es @ es'))
           | (es', Throw e') \<Rightarrow> (es @ es', Throw e')
           | (es', Exit n) \<Rightarrow> (es @ es', Exit n)))"
  by (simp add: seq_def bind_def try_catch_def prepend_def split: prod.splits result.splits)

lemmas run_defs = changefile_def generateAndCommit_def tryBody_def commitAndPush_def truthy_def
  changelogCmd_def messageExpression_def commentExpression_def Let_def seq_try_catch

lemmas example_defs = exampleEnv_def exampleOptions_def exampleGit_def examplePR_def

lemma exampleOptions_sel:
  "owner exampleOptions = ''woocommerce''" "name exampleOptions = ''woocommerce''"
  "devRepoPath exampleOptions = None"
  by (simp_all add: exampleOptions_def)

lemma unchecked_run:
  \<open>changefile uncheckedEnv ''7'' exampleOptions [] =
     ([StartTask ''Getting pull request data for PR number 7'',
       GetPullRequestData ''woocommerce'' ''woocommerce'' ''7'' (Ok examplePR),
       EndTask,
       Notice ''PR #7 does not have the "Automatically create a changelog entry from the details" checkbox checked. No changelog will be created.''],
      Exit 0)\<close>
  by (simp add: run_defs example_defs uncheckedEnv_def)

lemma malformed_run:
  "changefile malformedEnv ''7'' exampleOptions [] =
     ([StartTask ''Getting pull request data for PR number 7'',
       GetPullRequestData ''woocommerce'' ''woocommerce'' ''7'' (Ok examplePR),
       EndTask],
      Throw (Error ''No changelog significance found''))"
  by (simp add: run_defs example_defs malformedEnv_def)

lemmas trace_defs = exampleBefore_def exampleFailure_def exampleAfter_def exampleDetails_def
  noneTouchedTrace_def

lemma example_run:
  "changefile exampleEnv ''7'' exampleOptions [] =
     (exampleBefore @ exampleFailure # exampleAfter, Ok ())"
  by (simp add: run_defs example_defs trace_defs)

lemma none_touched_run:
  "changefile noneTouchedEnv ''7'' exampleOptions [] = (noneTouchedTrace, Exit 0)"
  by (simp add: run_defs example_defs trace_defs noneTouchedEnv_def)

lemma example_trace:
  "fst (changefile exampleEnv ''7'' exampleOptions []) = exampleBefore @ exampleFailure # exampleAfter"
  "snd (changefile exampleEnv ''7'' exampleOptions []) = Ok ()"
  by (simp_all add: example_run)

lemma example_generations:
  "filter isGeneration (exampleBefore @ exampleFailure # exampleAfter) = [exampleFailure]"
  by (simp add: trace_defs example_defs isGenerationCmd_def changelogCmd_def)

lemma example_generation_cmd: "isGenerationCmd (changelogCmd ''a'' ''f1'' exampleDetails)"
  by (simp add: isGenerationCmd_def changelogCmd_def)


lemma succeeding_run:
  "changefile succeedingEnv ''7'' exampleOptions [] =
     (exampleBefore @ succeedingGenerations @ committed ''?? b'', Ok ())"
  by (simp add: run_defs example_defs trace_defs succeedingEnv_def succeedingGenerations_def
      committed_def)

lemma succeeding_trace:
  "fst (changefile succeedingEnv ''7'' exampleOptions []) =
     exampleBefore @ succeedingGenerations @ committed ''?? b''"
  by (simp add: succeeding_run)

lemma succeeding_generations:
  "filter isGeneration (exampleBefore @ succeedingGenerations @ committed ''?? b'') =
     [ExecSync (changelogCmd ''a'' ''f1'' exampleDetails) ''/r'' (Ok ()),
      ExecSync (changelogCmd ''b'' ''f1'' exampleDetails) ''/r'' (Ok ())]"
  by (simp add: trace_defs example_defs succeedingGenerations_def committed_def
      isGenerationCmd_def changelogCmd_def)






section \<open>The double-quoted word\<close>








section \<open>The claims\<close>

text \<open>
  C1, as the code has it. The \<^verbatim>\<open>try\<close> block of lines 105--162 encloses the whole
  loop over the touched projects, so a call of the generator that throws ends the loop:
  the value thrown is handed to \<^verbatim>\<open>Logger.error\<close> as the next event, no call of the
  generator follows it (the projects after the failing one are skipped), and no call
  before it had failed. When \<^verbatim>\<open>Logger.error\<close> returns, the run goes on with the
  notice of line 164 and the git commands of the commit step, and its exit code is 0
  when none of them fails.
\<close>

theorem C1_failure_ends_generation:
  assumes "fst (changefile E n opts h) = pre @ ExecSync c dd (Throw e) # post"
    and "isGenerationCmd c"
  shows "\<exists>rl rest. post = LoggerError e rl # rest
      \<and> (\<forall>x\<in>set post. \<not> isGeneration x)
      \<and> (\<forall>x\<in>set pre. \<not> failed x)
      \<and> (rl = Ok () \<longrightarrow>
           (\<exists>t g a rr rest'. rest = Notice t # GitRaw g a rr # rest')
           \<and> ((\<forall>x\<in>set rest. \<not> failed x) \<longrightarrow> exitCode (snd (changefile E n opts h)) = 0))"
proof -
  let ?X = "ExecSync c dd (Throw e)"
  have x: "?X \<in> set (fst (changefile E n opts h))" using assms(1) by simp
  have re: "reachedEvent ?X" by simp
  show ?thesis
  proof (cases rule: changefile_reached[OF x re])
    case (1 pr d tmp touched P)
    let ?br = "branch pr" and ?f = "fileName pr"
    let ?G = "fst (generateAndCommit E opts tmp ?br ?f d touched (h @ P))"
    let ?T = "fst (tryBody E opts tmp ?f d touched (h @ P))"
    obtain rest where rest: "?G = ?T @ rest" "\<forall>y\<in>set rest. afterEvent y"
      by (rule generateAndCommit_tail[of E opts tmp ?br ?f d touched "h @ P"]) blast
    have "preludeEvent ?X = False" "afterEvent ?X = False" by simp_all
    then have "?X \<notin> set P" "?X \<notin> set rest" using 1(4) rest(2) by blast+
    then have inT: "?X \<in> set ?T" using x 1(9) rest(1) by simp
    have thr: "Throw e \<noteq> Ok ()" by simp
    from tryBody_failed_exec[OF inT thr]
    have T: "snd (tryBody E opts tmp ?f d touched (h @ P)) = Throw e" "?T = butlast ?T @ [?X]"
      by simp_all
    have es: "(P @ butlast ?T) @ ?X # rest = pre @ ?X # post"
      using assms(1) 1(9) rest(1) T(2) by (metis append.assoc append_Cons append_Nil)
    have A: "\<forall>a\<in>set (P @ butlast ?T). \<not> failed a"
      using 1(4) preludeEvent_kinds tryBody_butlast[of _ E opts tmp ?f d touched "h @ P"] by auto
    have B: "\<forall>b\<in>set rest. \<not> isExec b" using rest(2) afterEvent_kinds by blast
    from unique_split[OF es A _ B] have split: "pre = P @ butlast ?T" "post = rest" by simp_all
    have G: "?G = ?T @ post" using rest(1) split(2) by simp
    have nogen: "\<forall>x\<in>set post. \<not> isGeneration x" using rest(2) split(2) afterEvent_kinds by blast
    have clean: "\<forall>x\<in>set pre. \<not> failed x" using A split(1) by simp
    show ?thesis
    proof (cases rule: generateAndCommit_cases[of E opts tmp ?f d touched "h @ P" ?br])
      case (exited k)
      then show ?thesis using T(1) by simp
    next
      case (completed hc)
      then show ?thesis using T(1) by simp
    next
      case (logger_failed e' rl)
      then have "post = [LoggerError e rl]" using T(1) G by simp
      then show ?thesis using nogen clean logger_failed(2) by simp
    next
      case (caught e' hc)
      then have p: "post = LoggerError e (Ok ())
         # Notice (''Changelogs created for '' @ join '', '' touched)
         # fst (commitAndPush E tmp ?br hc)" using T(1) G by simp
      obtain g a rr C where C: "fst (commitAndPush E tmp ?br hc) = GitRaw g a rr # C"
        using commitAndPush_first[of E tmp ?br hc] by blast
      have "exitCode (snd (changefile E n opts h)) = 0"
        if "\<forall>x\<in>set (Notice (''Changelogs created for '' @ join '', '' touched)
                      # fst (commitAndPush E tmp ?br hc)). \<not> failed x"
        using that commitAndPush_exitCode[rule_format, of E tmp ?br hc] caught(3) 1(10) by simp
      then show ?thesis using p C nogen clean by auto
    qed
  qed
qed

theorem C1_witness:
  "isGenerationCmd (changelogCmd ''a'' ''f1'' exampleDetails)
   \<and> fst (changefile exampleEnv ''7'' exampleOptions [])
      = exampleBefore @ ExecSync (changelogCmd ''a'' ''f1'' exampleDetails) ''/r'' (Throw (Error ''failed''))
          # exampleAfter
   \<and> (\<exists>rl rest. exampleAfter = LoggerError (Error ''failed'') rl # rest)
   \<and> list_all (\<lambda>x. \<not> isGeneration x) exampleAfter
   \<and> list_all (\<lambda>x. \<not> failed x) exampleBefore"
proof -
  have a: "fst (changefile exampleEnv ''7'' exampleOptions [])
      = exampleBefore @ ExecSync (changelogCmd ''a'' ''f1'' exampleDetails) ''/r'' (Throw (Error ''failed''))
          # exampleAfter"
    by (simp add: example_trace(1) exampleFailure_def)
  from C1_failure_ends_generation[OF a example_generation_cmd]
  have "(\<exists>rl rest. exampleAfter = LoggerError (Error ''failed'') rl # rest)
      \<and> (\<forall>x\<in>set exampleAfter. \<not> isGeneration x) \<and> (\<forall>x\<in>set exampleBefore. \<not> failed x)"
    by blast
  then show ?thesis
    using a example_generation_cmd by (simp add: list_all_iff)
qed


text \<open>
  In the example run the touched projects are \<open>a\<close> and \<open>b\<close> and the generator fails
  for \<open>a\<close>: the failing call is the only call of the generator, none is made for
  \<open>b\<close>, and the run still commits and returns.
\<close>

theorem C1_counterexample:
  "GetTouchedProjectsRequiringChangelog ''/r'' ''b0'' ''h1'' ''f1'' ''woocommerce'' ''woocommerce''
      (Ok [''a'', ''b'']) \<in> set (fst (changefile exampleEnv ''7'' exampleOptions []))
   \<and> ExecSync (changelogCmd ''a'' ''f1'' exampleDetails) ''/r'' (Throw (Error ''failed''))
      \<in> set (fst (changefile exampleEnv ''7'' exampleOptions []))
   \<and> filter isGeneration (fst (changefile exampleEnv ''7'' exampleOptions []))
      = [ExecSync (changelogCmd ''a'' ''f1'' exampleDetails) ''/r'' (Throw (Error ''failed''))]
   \<and> list_ex isCommit (fst (changefile exampleEnv ''7'' exampleOptions []))
   \<and> snd (changefile exampleEnv ''7'' exampleOptions []) = Ok ()"
proof -
  let ?es = "fst (changefile exampleEnv ''7'' exampleOptions [])"
  have "GetTouchedProjectsRequiringChangelog ''/r'' ''b0'' ''h1'' ''f1'' ''woocommerce'' ''woocommerce''
      (Ok [''a'', ''b'']) \<in> set ?es"
    by (simp add: example_trace(1) exampleBefore_def)
  moreover have "ExecSync (changelogCmd ''a'' ''f1'' exampleDetails) ''/r'' (Throw (Error ''failed''))
      \<in> set ?es"
    by (simp add: example_trace(1) exampleFailure_def)
  moreover have "filter isGeneration ?es
      = [ExecSync (changelogCmd ''a'' ''f1'' exampleDetails) ''/r'' (Throw (Error ''failed''))]"
    unfolding example_trace(1) example_generations by (simp add: exampleFailure_def)
  moreover have "list_ex isCommit ?es"
    by (simp add: example_trace(1) exampleAfter_def)
  ultimately show ?thesis using example_trace(2) by blast
qed


text \<open>
  C2, as the code has it. The raw git commands of a run are \<^verbatim>\<open>status --short\<close>
  and, in continuous integration only, \<^verbatim>\<open>config --global user.email\<close> and
  \<^verbatim>\<open>config --global user.name\<close>: the identity is written with \<^verbatim>\<open>--global\<close>,
  to the configuration of the user and not to that of the clone. In continuous
  integration a run that asks for the status has made both \<^verbatim>\<open>--global\<close> calls
  before, and both returned.
\<close>

theorem C2_identity_is_configured_globally:
  "(GitRaw g args rr \<in> set (fst (changefile E n opts h)) \<longrightarrow>
      args = [''status'', ''--short''] \<or>
      isGithubCI E \<and>
        (args = [''config'', ''--global'', ''user.email'', ''github-actions@github.com''] \<or>
         args = [''config'', ''--global'', ''user.name'', ''github-actions'']))
   \<and> (isGithubCI E \<and> GitRaw g [''status'', ''--short''] rr \<in> set (fst (changefile E n opts h)) \<longrightarrow>
      (\<exists>v. GitRaw g [''config'', ''--global'', ''user.email'', ''github-actions@github.com''] (Ok v)
             \<in> set (fst (changefile E n opts h))) \<and>
      (\<exists>v. GitRaw g [''config'', ''--global'', ''user.name'', ''github-actions''] (Ok v)
             \<in> set (fst (changefile E n opts h))))"
proof -
  have committed: "\<exists>tmp br hc. GitRaw g a rr \<in> set (fst (commitAndPush E tmp br hc))
          \<and> set (fst (commitAndPush E tmp br hc)) \<subseteq> set (fst (changefile E n opts h))"
    if x: "GitRaw g a rr \<in> set (fst (changefile E n opts h))" for a
  proof -
    have re: "reachedEvent (GitRaw g a rr)" by simp
    show ?thesis
    proof (cases rule: changefile_reached[OF x re])
      case (1 pr d tmp touched P)
      have "preludeEvent (GitRaw g a rr) = False" by simp
      then have "GitRaw g a rr \<notin> set P" using 1(4) by blast
      then have "GitRaw g a rr
          \<in> set (fst (generateAndCommit E opts tmp (branch pr) (fileName pr) d touched (h @ P)))"
        using x 1(9) by simp
      from generateAndCommit_raw[OF this] show ?thesis using 1(9) by auto
    qed
  qed
  have a: "args = [''status'', ''--short''] \<or>
      isGithubCI E \<and>
        (args = [''config'', ''--global'', ''user.email'', ''github-actions@github.com''] \<or>
         args = [''config'', ''--global'', ''user.name'', ''github-actions''])"
    if "GitRaw g args rr \<in> set (fst (changefile E n opts h))"
    using committed[OF that] commitAndPush_raw by blast
  have b: "(\<exists>v. GitRaw g [''config'', ''--global'', ''user.email'', ''github-actions@github.com''] (Ok v)
             \<in> set (fst (changefile E n opts h))) \<and>
      (\<exists>v. GitRaw g [''config'', ''--global'', ''user.name'', ''github-actions''] (Ok v)
             \<in> set (fst (changefile E n opts h)))"
    if ci: "isGithubCI E" and st: "GitRaw g [''status'', ''--short''] rr \<in> set (fst (changefile E n opts h))"
  proof -
    from committed[OF st] obtain tmp br hc where
      c: "GitRaw g [''status'', ''--short''] rr \<in> set (fst (commitAndPush E tmp br hc))"
      "set (fst (commitAndPush E tmp br hc)) \<subseteq> set (fst (changefile E n opts h))" by blast
    from commitAndPush_identity[rule_format, OF ci c(1)] show ?thesis using c(2) by blast
  qed
  show ?thesis using a b by blast
qed

theorem C2_witness:
  "isGithubCI exampleEnv
   \<and> GitRaw exampleGit [''status'', ''--short''] (Ok ''?? b'')
        \<in> set (fst (changefile exampleEnv ''7'' exampleOptions []))
   \<and> (\<exists>v. GitRaw exampleGit [''config'', ''--global'', ''user.email'', ''github-actions@github.com'']
        (Ok v) \<in> set (fst (changefile exampleEnv ''7'' exampleOptions [])))
   \<and> (\<exists>v. GitRaw exampleGit [''config'', ''--global'', ''user.name'', ''github-actions'']
        (Ok v) \<in> set (fst (changefile exampleEnv ''7'' exampleOptions [])))"
proof -
  have ci: "isGithubCI exampleEnv" by (simp add: exampleEnv_def)
  have st: "GitRaw exampleGit [''status'', ''--short''] (Ok ''?? b'')
        \<in> set (fst (changefile exampleEnv ''7'' exampleOptions []))"
    by (simp add: example_trace(1) exampleAfter_def)
  show ?thesis
    using C2_identity_is_configured_globally[of exampleGit "[''status'', ''--short'']" "Ok ''?? b''"
        exampleEnv "''7''" exampleOptions "[]"] ci st
    by blast
qed


text \<open>
  The example run is in continuous integration and issues both
  \<^verbatim>\<open>git config --global\<close> commands.
\<close>

theorem C2_counterexample:
  "isGithubCI exampleEnv
   \<and> GitRaw exampleGit [''config'', ''--global'', ''user.email'', ''github-actions@github.com'']
        (Ok []) \<in> set (fst (changefile exampleEnv ''7'' exampleOptions []))
   \<and> GitRaw exampleGit [''config'', ''--global'', ''user.name'', ''github-actions'']
        (Ok []) \<in> set (fst (changefile exampleEnv ''7'' exampleOptions []))"
proof -
  have "isGithubCI exampleEnv" by (simp add: exampleEnv_def)
  then show ?thesis by (simp add: example_trace(1) exampleAfter_def)
qed





text \<open>
  C4: when the body of the pull request does not have the automation checkbox checked
  (\<^verbatim>\<open>shouldAutomateChangelog\<close> answers false), the run consists of fetching the pull
  request data and printing one notice, and it ends with \<^verbatim>\<open>process.exit( 0 )\<close>:
  no clone, no checkout, no child process (so no removal, installation or generation)
  and no git command.
\<close>

theorem C4_no_automation_is_a_noop:
  assumes "GetPullRequestData ow nm k (Ok pr) \<in> set (fst (changefile E n opts h))"
    and "\<not> shouldAutomateChangelog E (prBody pr)"
  shows \<open>changefile E n opts h =
     ([StartTask (''Getting pull request data for PR number '' @ n),
       GetPullRequestData (owner opts) (name opts) n (Ok pr),
       EndTask,
       Notice (''PR #'' @ n @ '' does not have the "Automatically create a changelog entry from the details" checkbox checked. No changelog will be created.'')],
      Exit 0)
    \<and> exitCode (snd (changefile E n opts h)) = 0
    \<and> (\<forall>x\<in>set (fst (changefile E n opts h)).
          \<not> isClone x \<and> \<not> isCheckout x \<and> \<not> isExec x \<and> \<not> isGit x)\<close>
proof -
  have run: \<open>changefile E n opts h =
     ([StartTask (''Getting pull request data for PR number '' @ n),
       GetPullRequestData (owner opts) (name opts) n (Ok pr),
       EndTask,
       Notice (''PR #'' @ n @ '' does not have the "Automatically create a changelog entry from the details" checkbox checked. No changelog will be created.'')],
      Exit 0)\<close>
  proof (cases rule: changefile_cases[of E n opts h])
    case (fetch_failed rr)
    then show ?thesis using assms by auto
  next
    case (not_requested pr')
    then show ?thesis using assms by auto
  next
    case (details_failed pr')
    then show ?thesis using assms by auto
  next
    case (clone_failed pr' rr)
    then show ?thesis using assms by auto
  next
    case (checkout_failed pr' P tmp rr)
    then show ?thesis using assms by (auto split: if_splits)
  next
    case (touched_failed pr' P tmp rr)
    then show ?thesis using assms by (auto split: if_splits)
  next
    case (reached pr' details tmp touched P)
    then show ?thesis using assms
      by (auto split: if_splits dest: generateAndCommit_events)
  qed
  show ?thesis
    by (simp add: run exitCode_def)
qed

theorem C4_witness:
  \<open>\<not> shouldAutomateChangelog uncheckedEnv (prBody examplePR)
   \<and> changefile uncheckedEnv ''7'' exampleOptions [] =
       ([StartTask ''Getting pull request data for PR number 7'',
         GetPullRequestData ''woocommerce'' ''woocommerce'' ''7'' (Ok examplePR),
         EndTask,
         Notice ''PR #7 does not have the "Automatically create a changelog entry from the details" checkbox checked. No changelog will be created.''],
        Exit 0)
   \<and> exitCode (snd (changefile uncheckedEnv ''7'' exampleOptions [])) = 0\<close>
proof -
  have a: "GetPullRequestData ''woocommerce'' ''woocommerce'' ''7'' (Ok examplePR)
             \<in> set (fst (changefile uncheckedEnv ''7'' exampleOptions []))"
    by (simp add: unchecked_run)
  have b: "\<not> shouldAutomateChangelog uncheckedEnv (prBody examplePR)"
    by (simp add: uncheckedEnv_def)
  show ?thesis
    using C4_no_automation_is_a_noop[OF a b] b by (simp add: exampleOptions_sel exitCode_def)
qed

text \<open>
  C5: when the checkbox is checked and \<^verbatim>\<open>getChangelogDetails\<close> raises for the body
  (it throws, or ends the process with a non-zero code), the run stops there: it has
  fetched the pull request data and done nothing else, so no clone, no checkout and no
  child process, and it ends with a non-zero exit code.
\<close>

theorem C5_directive_errors_precede_the_clone:
  assumes "GetPullRequestData ow nm k (Ok pr) \<in> set (fst (changefile E n opts h))"
    and "shouldAutomateChangelog E (prBody pr)"
    and "aborts (getChangelogDetails E (prBody pr))"
  shows "fst (changefile E n opts h) =
       [StartTask (''Getting pull request data for PR number '' @ n),
        GetPullRequestData (owner opts) (name opts) n (Ok pr),
        EndTask]
    \<and> aborts (snd (changefile E n opts h))
    \<and> exitCode (snd (changefile E n opts h)) \<noteq> 0
    \<and> (\<forall>x\<in>set (fst (changefile E n opts h)).
          \<not> isClone x \<and> \<not> isCheckout x \<and> \<not> isExec x \<and> \<not> isGit x)"
proof (cases rule: changefile_cases[of E n opts h])
  case (fetch_failed rr)
  then show ?thesis using assms by auto
next
  case (not_requested pr')
  then show ?thesis using assms by auto
next
  case (details_failed pr')
  then show ?thesis using assms by (auto simp: aborts_def exitCode_def)
next
  case (clone_failed pr' rr)
  then show ?thesis using assms by (auto simp: aborts_def split: result.splits)
next
  case (checkout_failed pr' P tmp rr)
  then show ?thesis using assms by (auto simp: aborts_def split: if_splits result.splits)
next
  case (touched_failed pr' P tmp rr)
  then show ?thesis using assms by (auto simp: aborts_def split: if_splits result.splits)
next
  case (reached pr' details tmp touched P)
  then show ?thesis using assms
    by (auto simp: aborts_def split: if_splits dest: generateAndCommit_events)
qed

theorem C5_witness:
  "shouldAutomateChangelog malformedEnv (prBody examplePR)
   \<and> aborts (getChangelogDetails malformedEnv (prBody examplePR))
   \<and> fst (changefile malformedEnv ''7'' exampleOptions []) =
       [StartTask ''Getting pull request data for PR number 7'',
        GetPullRequestData ''woocommerce'' ''woocommerce'' ''7'' (Ok examplePR),
        EndTask]
   \<and> exitCode (snd (changefile malformedEnv ''7'' exampleOptions [])) = 1"
proof -
  have a: "GetPullRequestData ''woocommerce'' ''woocommerce'' ''7'' (Ok examplePR)
             \<in> set (fst (changefile malformedEnv ''7'' exampleOptions []))"
    by (simp add: malformed_run)
  have b: "shouldAutomateChangelog malformedEnv (prBody examplePR)"
    by (simp add: malformedEnv_def example_defs)
  have c: "aborts (getChangelogDetails malformedEnv (prBody examplePR))"
    by (simp add: malformedEnv_def aborts_def)
  have d: "exitCode (snd (changefile malformedEnv ''7'' exampleOptions [])) = 1"
    by (simp add: malformed_run exitCode_def)
  show ?thesis
    using C5_directive_errors_precede_the_clone[OF a b c] b c d
    by (simp add: exampleOptions_sel exitCode_def)
qed

text \<open>
  C6: when the touched projects that require a changelog are none, the run never calls
  the generator and never installs dependencies; and when no call of the run fails (the
  removal of the existing files completes), it ends with \<^verbatim>\<open>process.exit( 0 )\<close>
  right after the notice of line 132, with no git command at all: no add, no commit,
  no push.
\<close>

theorem C6_no_touched_project_ends_the_run:
  assumes "GetTouchedProjectsRequiringChangelog tp b hc f ow nm (Ok [])
             \<in> set (fst (changefile E n opts h))"
  shows "(\<forall>x\<in>set (fst (changefile E n opts h)). \<not> isGeneration x \<and> \<not> isInstall x)
    \<and> ((\<forall>x\<in>set (fst (changefile E n opts h)). \<not> failed x) \<longrightarrow>
         snd (changefile E n opts h) = Exit 0
       \<and> exitCode (snd (changefile E n opts h)) = 0
       \<and> (\<forall>x\<in>set (fst (changefile E n opts h)). \<not> isGit x)
       \<and> last (fst (changefile E n opts h)) = Notice ''No projects require a changelog'')"
proof -
  have re: "reachedEvent (GetTouchedProjectsRequiringChangelog tp b hc f ow nm (Ok []))" by simp
  show ?thesis
  proof (cases rule: changefile_reached[OF assms re])
    case (1 pr d tmp touched P)
    let ?G = "fst (generateAndCommit E opts tmp (branch pr) (fileName pr) d touched (h @ P))"
    have "lateEvent (GetTouchedProjectsRequiringChangelog tp b hc f ow nm (Ok [])) = False" by simp
    then have "GetTouchedProjectsRequiringChangelog tp b hc f ow nm (Ok []) \<notin> set ?G"
      using generateAndCommit_events[of _ E opts tmp "branch pr" "fileName pr" d touched "h @ P"]
      by blast
    then have "GetTouchedProjectsRequiringChangelog tp b hc f ow nm (Ok []) \<in> set P"
      using assms 1(9) by simp
    then have touched: "touched = []" using 1(7) by blast
    have Pk: "\<forall>x\<in>set P. \<not> isGeneration x \<and> \<not> isInstall x \<and> \<not> isGit x"
      using 1(4) preludeEvent_kinds by blast
    have a: "\<forall>x\<in>set (fst (changefile E n opts h)). \<not> isGeneration x \<and> \<not> isInstall x"
      using generateAndCommit_none_touched(1)[OF touched, of E opts tmp "branch pr" "fileName pr" d "h @ P"]
        Pk 1(9) by auto
    have b: "snd (changefile E n opts h) = Exit 0
       \<and> exitCode (snd (changefile E n opts h)) = 0
       \<and> (\<forall>x\<in>set (fst (changefile E n opts h)). \<not> isGit x)
       \<and> last (fst (changefile E n opts h)) = Notice ''No projects require a changelog''"
      if clean: "\<forall>x\<in>set (fst (changefile E n opts h)). \<not> failed x"
    proof -
      have "\<forall>x\<in>set ?G. \<not> failed x" using clean 1(9) by simp
      from generateAndCommit_none_touched(2)[OF touched this]
      have G: "snd (generateAndCommit E opts tmp (branch pr) (fileName pr) d touched (h @ P)) = Exit 0"
        "\<forall>x\<in>set ?G. \<not> isGit x" "last ?G = Notice ''No projects require a changelog''"
        by simp_all
      have "?G \<noteq> []"
        by (cases rule: generateAndCommit_tail[of E opts tmp "branch pr" "fileName pr" d touched "h @ P"],
            cases rule: tryBody_cases[of E opts tmp "fileName pr" d touched "h @ P"]) auto
      then show ?thesis using G Pk 1(9) 1(10) by (auto simp: exitCode_def)
    qed
    show ?thesis using a b by blast
  qed
qed

theorem C6_witness:
  "GetTouchedProjectsRequiringChangelog ''/r'' ''b0'' ''h1'' ''f1'' ''woocommerce'' ''woocommerce''
      (Ok []) \<in> set (fst (changefile noneTouchedEnv ''7'' exampleOptions []))
   \<and> list_all (\<lambda>x. \<not> failed x) (fst (changefile noneTouchedEnv ''7'' exampleOptions []))
   \<and> snd (changefile noneTouchedEnv ''7'' exampleOptions []) = Exit 0
   \<and> exitCode (snd (changefile noneTouchedEnv ''7'' exampleOptions [])) = 0
   \<and> list_all (\<lambda>x. \<not> isGeneration x \<and> \<not> isInstall x \<and> \<not> isGit x)
        (fst (changefile noneTouchedEnv ''7'' exampleOptions []))
   \<and> last (fst (changefile noneTouchedEnv ''7'' exampleOptions []))
        = Notice ''No projects require a changelog''"
proof -
  let ?es = "fst (changefile noneTouchedEnv ''7'' exampleOptions [])"
  have a: "GetTouchedProjectsRequiringChangelog ''/r'' ''b0'' ''h1'' ''f1'' ''woocommerce''
      ''woocommerce'' (Ok []) \<in> set ?es"
    by (simp add: none_touched_run noneTouchedTrace_def)
  have clean: "\<forall>x\<in>set ?es. \<not> failed x"
    by (simp add: none_touched_run noneTouchedTrace_def)
  show ?thesis
    using C6_no_touched_project_ends_the_run[OF a] a clean
    by (auto simp: list_all_iff exitCode_def)
qed






text \<open>
  C8: with a \<^verbatim>\<open>devRepoPath\<close> (a non-empty string) a run neither installs
  dependencies nor clones. Without one, a run installs at most once; when it calls the
  generator, the one installation is among the events before the first call of the
  generator; and when the touched projects are not none and the removal of the existing
  files completes, it installs exactly once.
\<close>

theorem C8_install_once_before_generation:
  "(truthy (devRepoPath opts) \<longrightarrow>
      (\<forall>x\<in>set (fst (changefile E n opts h)). \<not> isInstall x \<and> \<not> isClone x))
   \<and> (\<not> truthy (devRepoPath opts) \<longrightarrow>
        length (filter isInstall (fst (changefile E n opts h))) \<le> 1
      \<and> ((\<exists>x\<in>set (fst (changefile E n opts h)). isGeneration x) \<longrightarrow>
            length (filter isInstall (beforeFirstGeneration (fst (changefile E n opts h)))) = 1)
      \<and> (GetTouchedProjectsRequiringChangelog tp b hc f ow nm (Ok touched)
              \<in> set (fst (changefile E n opts h))
           \<and> touched \<noteq> []
           \<and> GetAllProjectPaths tq (Ok ps) \<in> set (fst (changefile E n opts h))
           \<and> (\<forall>x\<in>set (fst (changefile E n opts h)). isRemoval x \<longrightarrow> \<not> failed x) \<longrightarrow>
            length (filter isInstall (fst (changefile E n opts h))) = 1))"
proof (cases "\<exists>x\<in>set (fst (changefile E n opts h)). reachedEvent x")
  case False
  have "GetTouchedProjectsRequiringChangelog tp b hc f ow nm (Ok touched)
          \<notin> set (fst (changefile E n opts h))"
    "GetAllProjectPaths tq (Ok ps) \<notin> set (fst (changefile E n opts h))"
    using False by fastforce+
  then show ?thesis
    using not_reached_no_exec[OF False] changefile_clone[of _ E n opts h]
    by (auto simp: filter_empty_conv)
next
  case True
  then obtain x where x: "x \<in> set (fst (changefile E n opts h))" "reachedEvent x" by blast
  show ?thesis
  proof (cases rule: changefile_parts[OF x])
    case parts: (1 pr d tmp touched' P rest)
    let ?es = "fst (changefile E n opts h)"
    let ?T = "fst (tryBody E opts tmp (fileName pr) d touched' (h @ P))"
    have inst: "filter isInstall ?es = filter isInstall ?T"
      by (simp add: parts(5) prelude_filters(1)[OF parts(2)] after_filters(1)[OF parts(6)])
    have a: "\<forall>x\<in>set ?es. \<not> isInstall x \<and> \<not> isClone x" if "truthy (devRepoPath opts)"
    proof -
      have "filter isInstall ?es = []" using inst tryBody_installs(2)[OF that] by simp
      then show ?thesis using changefile_clone[of _ E n opts h] that
        by (auto simp: filter_empty_conv)
    qed
    have b: "length (filter isInstall ?es) \<le> 1"
      using inst tryBody_installs(1)[of E opts tmp "fileName pr" d touched' "h @ P"] by simp
    have c: "length (filter isInstall (beforeFirstGeneration ?es)) = 1"
      if nt: "\<not> truthy (devRepoPath opts)" and "\<exists>x\<in>set ?es. isGeneration x"
    proof -
      from that obtain X where X: "X \<in> set ?es" "isGeneration X" by blast
      have "X \<notin> set P" "X \<notin> set rest"
        using X(2) parts(2) parts(6) preludeEvent_kinds afterEvent_kinds by blast+
      then have XT: "X \<in> set ?T" using X(1) parts(5) by simp
      have before: "beforeFirstGeneration ?es = P @ takeWhile (\<lambda>x. \<not> isGeneration x) ?T"
        using XT X(2) by (simp add: beforeFirstGeneration_def parts(5)
            prelude_filters(3)[OF parts(2)] takeWhile_append1)
      show ?thesis
      proof (cases rule: tryBody_generated[OF XT X(2)])
        case gen: (1 ps' h2 h3)
        let ?Gn = "fst (runChangelogCommands E tmp (fileName pr) d touched' h3)"
        have "\<forall>x\<in>set (takeWhile (\<lambda>x. \<not> isGeneration x) ?Gn). \<not> isInstall x"
          using runChangelogCommands_not_install set_takeWhileD by metis
        then have "filter isInstall (takeWhile (\<lambda>x. \<not> isGeneration x) ?Gn) = []"
          by (simp add: filter_empty_conv)
        then show ?thesis using nt
          by (simp add: before gen(5) prelude_filters(1)[OF parts(2)] removeExisting_no_generation)
      qed
    qed
    have d: "length (filter isInstall ?es) = 1"
      if nt: "\<not> truthy (devRepoPath opts)"
        and t: "GetTouchedProjectsRequiringChangelog tp b hc f ow nm (Ok touched) \<in> set ?es"
        and ne: "touched \<noteq> []"
        and ga: "GetAllProjectPaths tq (Ok ps) \<in> set ?es"
        and rm: "\<forall>x\<in>set ?es. isRemoval x \<longrightarrow> \<not> failed x"
    proof -
      have "GetTouchedProjectsRequiringChangelog tp b hc f ow nm (Ok touched) \<notin> set ?T"
        by (rule not_in_try) simp
      moreover have "GetTouchedProjectsRequiringChangelog tp b hc f ow nm (Ok touched) \<notin> set rest"
        by (rule not_in_after[OF parts(6)]) simp
      ultimately have "GetTouchedProjectsRequiringChangelog tp b hc f ow nm (Ok touched) \<in> set P"
        using t parts(5) by simp
      then have touched: "touched' = touched" using parts(4) by blast
      have "GetAllProjectPaths tq (Ok ps) \<notin> set P"
        by (rule not_in_prelude[OF parts(2)]) simp
      moreover have "GetAllProjectPaths tq (Ok ps) \<notin> set rest"
        by (rule not_in_after[OF parts(6)]) simp
      ultimately have inT: "GetAllProjectPaths tq (Ok ps) \<in> set ?T"
        using ga parts(5) by simp
      have "\<forall>x\<in>set ?T. isRemoval x \<longrightarrow> \<not> failed x" using rm parts(5) by simp
      from tryBody_installs(3)[OF nt _ inT this] show ?thesis using ne touched inst by simp
    qed
    show ?thesis using a b c d by blast
  qed
qed

theorem C8_witness:
  "\<not> truthy (devRepoPath exampleOptions)
   \<and> length (filter isInstall (fst (changefile exampleEnv ''7'' exampleOptions []))) = 1
   \<and> length (filter isInstall
               (beforeFirstGeneration (fst (changefile exampleEnv ''7'' exampleOptions [])))) = 1
   \<and> truthy (devRepoPath devOptions)
   \<and> list_all (\<lambda>x. \<not> isInstall x \<and> \<not> isClone x) (fst (changefile exampleEnv ''7'' devOptions []))"
proof -
  let ?es = "fst (changefile exampleEnv ''7'' exampleOptions [])"
  have nt: "\<not> truthy (devRepoPath exampleOptions)"
    by (simp add: truthy_def exampleOptions_sel)
  have t: "truthy (devRepoPath devOptions)"
    by (simp add: truthy_def devOptions_def)
  have a: "GetTouchedProjectsRequiringChangelog ''/r'' ''b0'' ''h1'' ''f1'' ''woocommerce''
      ''woocommerce'' (Ok [''a'', ''b'']) \<in> set ?es"
    by (simp add: example_trace(1) exampleBefore_def)
  have b: "GetAllProjectPaths ''/r'' (Ok [''a'', ''b'', ''c'']) \<in> set ?es"
    by (simp add: example_trace(1) exampleBefore_def)
  have rm: "\<forall>x\<in>set ?es. isRemoval x \<longrightarrow> \<not> failed x"
    by (simp add: example_trace(1) trace_defs isRemovalCmd_def changelogCmd_def)
  have gen: "\<exists>x\<in>set ?es. isGeneration x"
    by (simp add: example_trace(1) exampleFailure_def example_generation_cmd)
  have ne: "[''a'', ''b''] \<noteq> ([] :: string list)" by simp
  show ?thesis
    using C8_install_once_before_generation[of exampleOptions exampleEnv "''7''" "[]"
        "''/r''" "''b0''" "''h1''" "''f1''" "''woocommerce''" "''woocommerce''" "[''a'', ''b'']"
        "''/r''" "[''a'', ''b'', ''c'']"]
      C8_install_once_before_generation[of devOptions exampleEnv "''7''" "[]"
        "''/r''" "''b0''" "''h1''" "''f1''" "''woocommerce''" "''woocommerce''" "[''a'', ''b'']"
        "''/r''" "[''a'', ''b'', ''c'']"]
      nt t a b rm gen ne
    by (simp add: list_all_iff)
qed


text \<open>
  C9: the only notice of a run that starts with \<^verbatim>\<open>Changelogs created for\<close> is the
  one that lists all touched projects, joined with \<^verbatim>\<open>', '\<close> in the order of the
  list; the calls of the generator are, in order, the commands of the first projects of
  that same list; a run that calls the generator prints the notice, also when a call
  of the generator throws, as long as no child process ends the process and
  \<^verbatim>\<open>Logger.error\<close> returns; when no call of the generator has failed, the calls are
  the commands of all the projects of the list, one for each in the order of the list;
  and every call of the generator but the last has returned.
\<close>

theorem C9_notice_lists_all_touched_projects:
  assumes "GetPullRequestData ow nm k (Ok pr) \<in> set (fst (changefile E n opts h))"
    and "getChangelogDetails E (prBody pr) = Ok d"
    and "GetTouchedProjectsRequiringChangelog tp b hc f ow' nm' (Ok touched)
           \<in> set (fst (changefile E n opts h))"
  shows "(\<forall>x\<in>set (fst (changefile E n opts h)).
            isCreatedNotice x \<longrightarrow> x = Notice (''Changelogs created for '' @ join '', '' touched))
    \<and> prefix (commands (filter isGeneration (fst (changefile E n opts h))))
              (map (\<lambda>p. changelogCmd p (fileName pr) d) touched)
    \<and> ((\<exists>x\<in>set (fst (changefile E n opts h)). isGeneration x)
         \<and> (\<forall>c dd j. ExecSync c dd (Exit j) \<notin> set (fst (changefile E n opts h)))
         \<and> (\<forall>e rl. LoggerError e rl \<in> set (fst (changefile E n opts h)) \<longrightarrow> rl = Ok ()) \<longrightarrow>
         Notice (''Changelogs created for '' @ join '', '' touched)
           \<in> set (fst (changefile E n opts h)))
    \<and> ((\<exists>x\<in>set (fst (changefile E n opts h)). isGeneration x)
         \<and> (\<forall>x\<in>set (fst (changefile E n opts h)). isGeneration x \<longrightarrow> \<not> failed x) \<longrightarrow>
         commands (filter isGeneration (fst (changefile E n opts h)))
           = map (\<lambda>p. changelogCmd p (fileName pr) d) touched)
    \<and> (\<forall>x\<in>set (butlast (filter isGeneration (fst (changefile E n opts h)))). \<not> failed x)"
proof -
  have re: "reachedEvent (GetTouchedProjectsRequiringChangelog tp b hc f ow' nm' (Ok touched))"
    by simp
  show ?thesis
  proof (cases rule: changefile_parts[OF assms(3) re])
    case parts: (1 pr' d' tmp touched' P rest)
    let ?es = "fst (changefile E n opts h)"
    let ?T = "fst (tryBody E opts tmp (fileName pr') d' touched' (h @ P))"
    let ?N = "Notice (''Changelogs created for '' @ join '', '' touched)"
    have "GetPullRequestData ow nm k (Ok pr) \<notin> set ?T"
      by (rule not_in_try) simp
    moreover have "GetPullRequestData ow nm k (Ok pr) \<notin> set rest"
      by (rule not_in_after[OF parts(6)]) simp
    ultimately have "GetPullRequestData ow nm k (Ok pr) \<in> set P"
      using assms(1) parts(5) by simp
    then have pr: "pr' = pr" using parts(3) by blast
    then have d: "d' = d" using parts(1) assms(2) by simp
    have "GetTouchedProjectsRequiringChangelog tp b hc f ow' nm' (Ok touched) \<notin> set ?T"
      by (rule not_in_try) simp
    moreover have "GetTouchedProjectsRequiringChangelog tp b hc f ow' nm' (Ok touched) \<notin> set rest"
      by (rule not_in_after[OF parts(6)]) simp
    ultimately have "GetTouchedProjectsRequiringChangelog tp b hc f ow' nm' (Ok touched) \<in> set P"
      using assms(3) parts(5) by simp
    then have touched: "touched' = touched" using parts(4) by blast
    have a: "\<forall>x\<in>set ?es. isCreatedNotice x \<longrightarrow> x = ?N"
      using parts(2) parts(7) preludeEvent_kinds tryEvent_kinds
        tryBody_events[of _ E opts tmp "fileName pr'" d' touched' "h @ P"]
      unfolding parts(5) touched by auto
    have gens: "filter isGeneration ?es = filter isGeneration ?T"
      by (simp add: parts(5) prelude_filters(2)[OF parts(2)] after_filters(2)[OF parts(6)])
    have e: "\<forall>x\<in>set (butlast (filter isGeneration ?es)). \<not> failed x"
      unfolding gens using butlast_filter_subset[of isGeneration ?T] tryBody_butlast by blast
    have dd: "commands (filter isGeneration ?es) = map (\<lambda>p. changelogCmd p (fileName pr) d) touched"
      if gen: "\<exists>x\<in>set ?es. isGeneration x"
        and nofail: "\<forall>x\<in>set ?es. isGeneration x \<longrightarrow> \<not> failed x"
    proof -
      from gen obtain X where X: "X \<in> set ?es" "isGeneration X" by blast
      have "X \<notin> set P" "X \<notin> set rest"
        using X(2) parts(2) parts(6) preludeEvent_kinds afterEvent_kinds by blast+
      then have XT: "X \<in> set ?T" using X(1) parts(5) by simp
      have "\<forall>x\<in>set ?T. isGeneration x \<longrightarrow> \<not> failed x" using nofail parts(5) by simp
      from tryBody_commands_all[OF XT X(2) this] show ?thesis
        unfolding gens using pr d touched by simp
    qed
    from gens have b: "prefix (commands (filter isGeneration ?es))
              (map (\<lambda>p. changelogCmd p (fileName pr) d) touched)"
      using tryBody_commands[of E opts tmp "fileName pr'" d' touched' "h @ P"] pr d touched
      by simp
    have c: "?N \<in> set ?es"
      if gen: "\<exists>x\<in>set ?es. isGeneration x"
        and noexit: "\<forall>c dd j. ExecSync c dd (Exit j) \<notin> set ?es"
        and logged: "\<forall>e rl. LoggerError e rl \<in> set ?es \<longrightarrow> rl = Ok ()"
    proof -
      from gen obtain X where X: "X \<in> set ?es" "isGeneration X" by blast
      have "X \<notin> set P" "X \<notin> set rest"
        using X(2) parts(2) parts(6) preludeEvent_kinds afterEvent_kinds by blast+
      then have XT: "X \<in> set ?T" using X(1) parts(5) by simp
      have sub: "set (fst (generateAndCommit E opts tmp (branch pr') (fileName pr') d' touched' (h @ P)))
                 \<subseteq> set ?es"
        using parts(5) parts(8) by auto
      show ?thesis
      proof (cases rule: generateAndCommit_cases[of E opts tmp "fileName pr'" d' touched' "h @ P" "branch pr'"])
        case (exited j)
        from tryBody_generation_exit[OF XT X(2) exited(1)] noexit parts(5) show ?thesis by auto
      next
        case (completed hc')
        then show ?thesis using sub touched by auto
      next
        case (logger_failed e rl)
        then have "LoggerError e rl \<in> set ?es" using sub by auto
        then show ?thesis using logged logger_failed(2) by blast
      next
        case (caught e hc')
        then show ?thesis using sub touched by auto
      qed
    qed
    show ?thesis using a b c dd e by blast
  qed
qed


theorem C9_witness:
  "commands (filter isGeneration (fst (changefile succeedingEnv ''7'' exampleOptions [])))
     = [changelogCmd ''a'' ''f1'' exampleDetails, changelogCmd ''b'' ''f1'' exampleDetails]
   \<and> Notice ''Changelogs created for a, b''
        \<in> set (fst (changefile succeedingEnv ''7'' exampleOptions []))
   \<and> filter isCreatedNotice (fst (changefile succeedingEnv ''7'' exampleOptions []))
        = [Notice ''Changelogs created for a, b'']
   \<and> failed (ExecSync (changelogCmd ''a'' ''f1'' exampleDetails) ''/r'' (Throw (Error ''failed'')))
   \<and> ExecSync (changelogCmd ''a'' ''f1'' exampleDetails) ''/r'' (Throw (Error ''failed''))
        \<in> set (fst (changefile exampleEnv ''7'' exampleOptions []))
   \<and> Notice ''Changelogs created for a, b''
        \<in> set (fst (changefile exampleEnv ''7'' exampleOptions []))
   \<and> prefix (commands (filter isGeneration (fst (changefile exampleEnv ''7'' exampleOptions []))))
        [changelogCmd ''a'' ''f1'' exampleDetails, changelogCmd ''b'' ''f1'' exampleDetails]"
proof -
  have f: "fileName examplePR = ''f1''" by (simp add: examplePR_def)
  have succeeding:
    "commands (filter isGeneration (fst (changefile succeedingEnv ''7'' exampleOptions [])))
       = [changelogCmd ''a'' ''f1'' exampleDetails, changelogCmd ''b'' ''f1'' exampleDetails]
     \<and> Notice ''Changelogs created for a, b''
          \<in> set (fst (changefile succeedingEnv ''7'' exampleOptions []))
     \<and> filter isCreatedNotice (fst (changefile succeedingEnv ''7'' exampleOptions []))
          = [Notice ''Changelogs created for a, b'']"
  proof -
    let ?es = "fst (changefile succeedingEnv ''7'' exampleOptions [])"
    have a: "GetPullRequestData ''woocommerce'' ''woocommerce'' ''7'' (Ok examplePR) \<in> set ?es"
      by (simp add: succeeding_trace exampleBefore_def)
    have d: "getChangelogDetails succeedingEnv (prBody examplePR) = Ok exampleDetails"
      by (simp add: succeedingEnv_def exampleEnv_def exampleDetails_def)
    have t: "GetTouchedProjectsRequiringChangelog ''/r'' ''b0'' ''h1'' ''f1'' ''woocommerce''
        ''woocommerce'' (Ok [''a'', ''b'']) \<in> set ?es"
      by (simp add: succeeding_trace exampleBefore_def)
    have gen: "\<exists>x\<in>set ?es. isGeneration x"
      by (simp add: succeeding_trace succeedingGenerations_def example_generation_cmd)
    have nofail: "\<forall>x\<in>set ?es. isGeneration x \<longrightarrow> \<not> failed x"
    proof
      fix x assume "x \<in> set ?es"
      show "isGeneration x \<longrightarrow> \<not> failed x"
      proof
        assume "isGeneration x"
        then have "x \<in> set (filter isGeneration ?es)" using \<open>x \<in> set ?es\<close> by simp
        then show "\<not> failed x" unfolding succeeding_trace succeeding_generations by auto
      qed
    qed
    have noexit: "\<forall>c dd j. ExecSync c dd (Exit j) \<notin> set ?es"
      by (simp add: succeeding_trace trace_defs succeedingGenerations_def committed_def)
    have logged: "\<forall>e rl. LoggerError e rl \<in> set ?es \<longrightarrow> rl = Ok ()"
      by (simp add: succeeding_trace trace_defs succeedingGenerations_def committed_def)
    have created: "filter isCreatedNotice ?es = [Notice ''Changelogs created for a, b'']"
      unfolding succeeding_trace
      by (simp add: trace_defs succeedingGenerations_def committed_def)
    show ?thesis
      using C9_notice_lists_all_touched_projects[OF a d t] gen nofail noexit logged created
      unfolding f by simp
  qed
  have failing:
    "failed (ExecSync (changelogCmd ''a'' ''f1'' exampleDetails) ''/r'' (Throw (Error ''failed'')))
     \<and> ExecSync (changelogCmd ''a'' ''f1'' exampleDetails) ''/r'' (Throw (Error ''failed''))
          \<in> set (fst (changefile exampleEnv ''7'' exampleOptions []))
     \<and> Notice ''Changelogs created for a, b''
          \<in> set (fst (changefile exampleEnv ''7'' exampleOptions []))
     \<and> prefix (commands (filter isGeneration (fst (changefile exampleEnv ''7'' exampleOptions []))))
          [changelogCmd ''a'' ''f1'' exampleDetails, changelogCmd ''b'' ''f1'' exampleDetails]"
  proof -
    let ?es = "fst (changefile exampleEnv ''7'' exampleOptions [])"
    have a: "GetPullRequestData ''woocommerce'' ''woocommerce'' ''7'' (Ok examplePR) \<in> set ?es"
      by (simp add: example_trace(1) exampleBefore_def)
    have d: "getChangelogDetails exampleEnv (prBody examplePR) = Ok exampleDetails"
      by (simp add: exampleEnv_def exampleDetails_def)
    have t: "GetTouchedProjectsRequiringChangelog ''/r'' ''b0'' ''h1'' ''f1'' ''woocommerce''
        ''woocommerce'' (Ok [''a'', ''b'']) \<in> set ?es"
      by (simp add: example_trace(1) exampleBefore_def)
    have x: "ExecSync (changelogCmd ''a'' ''f1'' exampleDetails) ''/r'' (Throw (Error ''failed''))
          \<in> set ?es"
      by (simp add: example_trace(1) exampleFailure_def)
    have gen: "\<exists>x\<in>set ?es. isGeneration x"
      by (simp add: example_trace(1) exampleFailure_def example_generation_cmd)
    have noexit: "\<forall>c dd j. ExecSync c dd (Exit j) \<notin> set ?es"
      by (simp add: example_trace(1) trace_defs)
    have logged: "\<forall>e rl. LoggerError e rl \<in> set ?es \<longrightarrow> rl = Ok ()"
      by (simp add: example_trace(1) trace_defs)
    show ?thesis
      using C9_notice_lists_all_touched_projects[OF a d t] x gen noexit logged unfolding f
      by simp
  qed
  show ?thesis using succeeding failing by blast
qed





end
